theory Spec2Isabelle
  imports Complex_Main
begin

text \<open>
  The Arcanean Prompt Language of \<^verbatim>\<open>packages/enterprise/src/core/EnterpriseManager.ts\<close>: the parser
  \<^verbatim>\<open>APLParser.parseAPL\<close> with \<^verbatim>\<open>validateAndComplete\<close>, the serializer
  \<^verbatim>\<open>APLParser.characterToAPL\<close>, and the editor helpers \<^verbatim>\<open>APLUtils.validateSyntax\<close> and
  \<^verbatim>\<open>APLUtils.getSuggestions\<close>, as functions of HOL. A JavaScript string is a list of
  characters, an object is the list of its own properties, a thrown exception is a value of the
  result type.
\<close>

section \<open>Strings\<close>

text \<open>
  A source text is a list of UTF-16 code units of the Latin-1 range, one \<^typ>\<open>char\<close> each.
  The white space that \<^verbatim>\<open>String.prototype.trim\<close> removes is, in that range, TAB, LF, VT, FF,
  CR, SPACE and NO-BREAK SPACE.
\<close>

definition is_space :: "char \<Rightarrow> bool" where
  "is_space c = (c \<in> set [CHR 0x09, CHR 0x0A, CHR 0x0B, CHR 0x0C, CHR 0x0D, CHR 0x20, CHR 0xA0])"

definition trim :: "string \<Rightarrow> string" where
  "trim s = rev (dropWhile is_space (rev (dropWhile is_space s)))"

text \<open>\<^verbatim>\<open>s.split(c)\<close> for a one-character separator: never the empty list.\<close>

fun split_on :: "char \<Rightarrow> string \<Rightarrow> string list" where
  "split_on c [] = [[]]"
| "split_on c (x # xs) =
     (if x = c then [] # split_on c xs
      else (case split_on c xs of [] \<Rightarrow> [[x]] | y # ys \<Rightarrow> (x # y) # ys))"

fun join :: "string \<Rightarrow> string list \<Rightarrow> string" where
  "join sep [] = []"
| "join sep [x] = x"
| "join sep (x # y # ys) = x @ sep @ join sep (y # ys)"

definition starts_with :: "string \<Rightarrow> string \<Rightarrow> bool" where
  "starts_with s p = (take (length p) s = p)"

definition ends_with :: "string \<Rightarrow> string \<Rightarrow> bool" where
  "ends_with s p = (length p \<le> length s \<and> drop (length s - length p) s = p)"

fun str_includes :: "string \<Rightarrow> string \<Rightarrow> bool" where
  "str_includes [] p = (p = [])"
| "str_includes (x # xs) p = (starts_with (x # xs) p \<or> str_includes xs p)"

definition digit_char :: "nat \<Rightarrow> char" where
  "digit_char d = ''0123456789'' ! d"

fun show_nat :: "nat \<Rightarrow> string" where
  "show_nat n = (if n < 10 then [digit_char n] else show_nat (n div 10) @ [digit_char (n mod 10)])"

declare show_nat.simps [simp del]

section \<open>APLUtils.validateSyntax\<close>

record vstate =
  errors :: "string list"
  hasCharacter :: bool
  hasArchetype :: bool
  openBraces :: int

record vresult =
  valid :: bool
  verrors :: "string list"

definition vinit :: vstate where
  "vinit = \<lparr>errors = [], hasCharacter = False, hasArchetype = False, openBraces = 0\<rparr>"

text \<open>The body of the \<^verbatim>\<open>for\<close> loop at index \<open>i\<close>, on the untrimmed line.\<close>

definition validate_step :: "nat \<Rightarrow> string \<Rightarrow> vstate \<Rightarrow> vstate" where
  "validate_step i raw st =
     (let line = trim raw in
      if line = [] \<or> starts_with line ''#'' then st
      else
        let hc = (if starts_with line ''@character'' then True else hasCharacter st);
            ha = (if starts_with line ''@archetype'' then True else hasArchetype st);
            ob1 = (if CHR ''{'' \<in> set line then openBraces st + 1 else openBraces st);
            ob2 = (if CHR ''}'' \<in> set line then ob1 - 1 else ob1);
            es = (if ob2 < 0
                  then errors st @ [''Line '' @ show_nat (i + 1) @ '': Unexpected closing brace'']
                  else errors st)
        in \<lparr>errors = es, hasCharacter = hc, hasArchetype = ha, openBraces = ob2\<rparr>)"

fun validate_loop :: "nat \<Rightarrow> string list \<Rightarrow> vstate \<Rightarrow> vstate" where
  "validate_loop i [] st = st"
| "validate_loop i (l # ls) st = validate_loop (Suc i) ls (validate_step i l st)"

definition validateSyntax :: "string \<Rightarrow> vresult" where
  "validateSyntax aplCode =
     (let st = validate_loop 0 (split_on CHR 0x0A aplCode) vinit;
          e1 = (if \<not> hasCharacter st then errors st @ [''Missing @character directive''] else errors st);
          e2 = (if \<not> hasArchetype st then e1 @ [''Missing @archetype directive''] else e1);
          e3 = (if openBraces st > 0 then e2 @ [''Unclosed braces detected''] else e2)
      in \<lparr>valid = (length e3 = 0), verrors = e3\<rparr>)"

section \<open>APLUtils.getSuggestions\<close>

text \<open>\<^verbatim>\<open>s.slice(0, e)\<close> for an integer \<open>e\<close>: a negative end counts from the end of the string.\<close>

definition slice0 :: "string \<Rightarrow> int \<Rightarrow> string" where
  "slice0 s e = (if e < 0 then take (nat (int (length s) + e)) s else take (nat e) s)"

definition directives :: "string list" where
  "directives = [''character'', ''archetype'', ''element'', ''consciousness_level'',
     ''personality'', ''memory'', ''conversation_patterns'', ''mystical_abilities'',
     ''voice_profile'', ''relationship_dynamics'']"

definition archetype_names :: "string list" where
  "archetype_names = [''Creator'', ''Nurturer'', ''Seductress'', ''Conductor'', ''Architect'', ''Transformer'']"

definition element_names :: "string list" where
  "element_names = [''Fire'', ''Water'', ''Earth'', ''Air'', ''Ether'', ''Void'']"

definition currentLine :: "string \<Rightarrow> int \<Rightarrow> string" where
  "currentLine partialAPL cursorPosition = last (split_on CHR 0x0A (slice0 partialAPL cursorPosition))"

definition suggest :: "string \<Rightarrow> string list" where
  "suggest line =
     (if starts_with line ''@'' then
        map (\<lambda>d. ''@'' @ d) (filter (\<lambda>d. starts_with d (tl line)) directives)
      else if str_includes line ''@archetype'' then archetype_names
      else if str_includes line ''@element'' then element_names
      else [])"

definition getSuggestions :: "string \<Rightarrow> int \<Rightarrow> string list" where
  "getSuggestions partialAPL cursorPosition = suggest (currentLine partialAPL cursorPosition)"

section \<open>Values\<close>

text \<open>
  A number is kept as the exact value of the decimal text it was read from; \<open>Fin q\<close> stands for
  the double nearest to \<open>q\<close>. Rounding to a double is monotone and leaves 0 and 1 fixed, so clamping
  into the unit interval commutes with it.
\<close>

datatype jsnum = Fin rat | PosInf | NegInf | NaN

text \<open>
  An object is its own properties in insertion order, and its prototype: \<open>None\<close> for
  \<^verbatim>\<open>Object.prototype\<close>, which every object literal starts with, or the object or array that an
  assignment to \<^verbatim>\<open>__proto__\<close> has put in its place. Array elements are strings (\<^verbatim>\<open>parseArray\<close>
  returns \<^verbatim>\<open>string[]\<close>, the registry holds string arrays).
\<close>

datatype jsval =
    JUndef
  | JStr string
  | JNum jsnum
  | JBool bool
  | JArr "string list"
  | JObj "(string \<times> jsval) list" "jsval option"

type_synonym jsobj = "(string \<times> jsval) list \<times> jsval option"

definition empty_obj :: jsobj where
  "empty_obj = ([], None)"

fun update_prop :: "string \<Rightarrow> jsval \<Rightarrow> (string \<times> jsval) list \<Rightarrow> (string \<times> jsval) list" where
  "update_prop k v [] = [(k, v)]"
| "update_prop k v (p # ps) = (if fst p = k then (k, v) # ps else p # update_prop k v ps)"

text \<open>
  \<^verbatim>\<open>obj[k] = v\<close> on a plain object. The key \<^verbatim>\<open>__proto__\<close> is the accessor of
  \<^verbatim>\<open>Object.prototype\<close>: it replaces the prototype when \<open>v\<close> is an object or an array and does
  nothing for a primitive; it never creates an own property.
\<close>

definition is_object :: "jsval \<Rightarrow> bool" where
  "is_object v = (case v of JArr _ \<Rightarrow> True | JObj _ _ \<Rightarrow> True | _ \<Rightarrow> False)"

definition set_prop :: "jsobj \<Rightarrow> string \<Rightarrow> jsval \<Rightarrow> jsobj" where
  "set_prop obj k v =
     (if k = ''__proto__'' then (if is_object v then (fst obj, Some v) else obj)
      else (update_prop k v (fst obj), snd obj))"

text \<open>Reading an own property; an absent one reads as \<^verbatim>\<open>undefined\<close>.\<close>

definition get_own :: "(string \<times> jsval) list \<Rightarrow> string \<Rightarrow> jsval" where
  "get_own ps k = (case map_of ps k of None \<Rightarrow> JUndef | Some v \<Rightarrow> v)"

definition truthy :: "jsval \<Rightarrow> bool" where
  "truthy v = (case v of
       JUndef \<Rightarrow> False
     | JStr s \<Rightarrow> s \<noteq> []
     | JNum n \<Rightarrow> n \<noteq> NaN \<and> n \<noteq> Fin 0
     | JBool b \<Rightarrow> b
     | JArr _ \<Rightarrow> True
     | JObj _ _ \<Rightarrow> True)"

section \<open>Numeric literals\<close>

definition digit_table :: "(char \<times> nat) list" where
  "digit_table = zip ''0123456789abcdefABCDEF'' [0, 1, 2, 3, 4, 5, 6, 7, 8, 9, 10, 11, 12, 13, 14, 15, 10, 11, 12, 13, 14, 15]"

definition digit_in :: "nat \<Rightarrow> char \<Rightarrow> bool" where
  "digit_in r c = (case map_of digit_table c of None \<Rightarrow> False | Some d \<Rightarrow> d < r)"

definition digit_val :: "char \<Rightarrow> nat" where
  "digit_val c = (case map_of digit_table c of None \<Rightarrow> 0 | Some d \<Rightarrow> d)"

definition radix_value :: "nat \<Rightarrow> string \<Rightarrow> nat" where
  "radix_value r ds = foldl (\<lambda>a c. r * a + digit_val c) 0 ds"

text \<open>The optional \<^verbatim>\<open>ExponentPart\<close>: the power of ten and the rest, or nothing consumed.\<close>

definition exponent_part :: "string \<Rightarrow> rat \<times> string" where
  "exponent_part s =
     (if starts_with s ''e'' \<or> starts_with s ''E'' then
        let r = tl s;
            neg = starts_with r ''-'';
            r' = (if starts_with r ''+'' \<or> neg then tl r else r);
            ed = takeWhile (digit_in 10) r'
        in if ed = [] then (1, s)
           else (if neg then 1 / 10 ^ radix_value 10 ed else 10 ^ radix_value 10 ed,
                 dropWhile (digit_in 10) r')
      else (1, s))"

text \<open>The longest prefix that is a \<^verbatim>\<open>StrUnsignedDecimalLiteral\<close> other than \<^verbatim>\<open>Infinity\<close>.\<close>

definition unsigned_decimal_prefix :: "string \<Rightarrow> (rat \<times> string) option" where
  "unsigned_decimal_prefix s =
     (let ip = takeWhile (digit_in 10) s;
          r1 = dropWhile (digit_in 10) s;
          dot = starts_with r1 ''.'';
          fp = (if dot then takeWhile (digit_in 10) (tl r1) else []);
          r2 = (if dot then dropWhile (digit_in 10) (tl r1) else r1)
      in if ip = [] \<and> fp = [] then None
         else let ex = exponent_part r2
              in Some (of_nat (radix_value 10 (ip @ fp)) / 10 ^ length fp * fst ex, snd ex))"

definition neg_num :: "jsnum \<Rightarrow> jsnum" where
  "neg_num n = (case n of Fin q \<Rightarrow> Fin (- q) | PosInf \<Rightarrow> NegInf | NegInf \<Rightarrow> PosInf | NaN \<Rightarrow> NaN)"

definition decimal_prefix :: "string \<Rightarrow> (jsnum \<times> string) option" where
  "decimal_prefix s =
     (let neg = starts_with s ''-'';
          r = (if starts_with s ''+'' \<or> neg then tl s else s);
          u = (if starts_with r ''Infinity'' then Some (PosInf, drop 8 r)
               else map_option (\<lambda>(q, rest). (Fin q, rest)) (unsigned_decimal_prefix r))
      in map_option (\<lambda>(n, rest). (if neg then neg_num n else n, rest)) u)"

definition parseFloat :: "string \<Rightarrow> jsnum" where
  "parseFloat s = (case decimal_prefix (dropWhile is_space s) of None \<Rightarrow> NaN | Some (n, _) \<Rightarrow> n)"

definition radix_literal :: "nat \<Rightarrow> string \<Rightarrow> jsnum" where
  "radix_literal r ds = (if ds \<noteq> [] \<and> list_all (digit_in r) ds then Fin (of_nat (radix_value r ds)) else NaN)"

text \<open>\<^verbatim>\<open>Number(s)\<close> for a string: the whole trimmed text must be a numeric literal; the empty text is 0.\<close>

definition str_to_number :: "string \<Rightarrow> jsnum" where
  "str_to_number s =
     (let t = trim s in
      if t = [] then Fin 0
      else if starts_with t ''0x'' \<or> starts_with t ''0X'' then radix_literal 16 (drop 2 t)
      else if starts_with t ''0o'' \<or> starts_with t ''0O'' then radix_literal 8 (drop 2 t)
      else if starts_with t ''0b'' \<or> starts_with t ''0B'' then radix_literal 2 (drop 2 t)
      else (case decimal_prefix t of
              Some (n, rest) \<Rightarrow> (if rest = [] then n else NaN)
            | None \<Rightarrow> NaN))"

section \<open>APLParser: value helpers\<close>

text \<open>
  \<^verbatim>\<open>value.replace(/^["']|["']$/g, '').trim()\<close>: one quote character is removed at the very start
  and one at the very end, before the white space is trimmed.
\<close>

definition is_quote :: "char \<Rightarrow> bool" where
  "is_quote c = (c = CHR 0x22 \<or> c = CHR 0x27)"

definition strip_quotes :: "string \<Rightarrow> string" where
  "strip_quotes s =
     (let s1 = (if s \<noteq> [] \<and> is_quote (hd s) then tl s else s)
      in if s1 \<noteq> [] \<and> is_quote (last s1) then butlast s1 else s1)"

definition parseValue :: "string \<Rightarrow> string" where
  "parseValue v = trim (strip_quotes v)"

text \<open>\<^verbatim>\<open>value.slice(1, -1)\<close>.\<close>

definition inner :: "string \<Rightarrow> string" where
  "inner v = butlast (tl v)"

definition parseArray :: "string \<Rightarrow> string list" where
  "parseArray v = map parseValue (split_on CHR '','' (inner v))"

text \<open>
  One \<^verbatim>\<open>key: val\<close> pair of a nested object: \<^verbatim>\<open>val\<close> is the second piece of the split on
  \<^verbatim>\<open>:\<close>, and a pair with an empty or missing piece is skipped.
\<close>

definition nested_pair :: "jsobj \<Rightarrow> string \<Rightarrow> jsobj" where
  "nested_pair obj pair =
     (let ps = map trim (split_on CHR '':'' pair) in
      case ps of
        k # v # _ \<Rightarrow> (if k \<noteq> [] \<and> v \<noteq> [] then set_prop obj (parseValue k) (JStr (parseValue v)) else obj)
      | _ \<Rightarrow> obj)"

definition parseNestedObject :: "string \<Rightarrow> jsobj" where
  "parseNestedObject v =
     (let content = trim (inner v) in
      if content \<noteq> [] then foldl nested_pair empty_obj (split_on CHR '','' content)
      else empty_obj)"

definition obj_val :: "jsobj \<Rightarrow> jsval" where
  "obj_val obj = JObj (fst obj) (snd obj)"

text \<open>The typed value of the right-hand side of a \<^verbatim>\<open>key: value\<close> line, first matching rule.\<close>

definition infer_value :: "string \<Rightarrow> jsval" where
  "infer_value v =
     (if starts_with v ''['' \<and> ends_with v '']'' then JArr (parseArray v)
      else if v = ''true'' \<or> v = ''false'' then JBool (v = ''true'')
      else if str_to_number v \<noteq> NaN then JNum (str_to_number v)
      else if starts_with v ''{'' then obj_val (parseNestedObject v)
      else JStr (parseValue v))"

section \<open>APLParser.parseAPL: the line loop\<close>

record pstate =
  character :: jsobj
  currentSection :: "string option"
  currentObject :: jsobj

definition pinit :: pstate where
  "pinit = \<lparr>character = empty_obj, currentSection = None, currentObject = empty_obj\<rparr>"

text \<open>\<^verbatim>\<open>if (currentSection)\<close>: \<^verbatim>\<open>null\<close> and the empty string are falsy.\<close>

definition in_section :: "pstate \<Rightarrow> bool" where
  "in_section st = (case currentSection st of None \<Rightarrow> False | Some s \<Rightarrow> s \<noteq> [])"

definition lexical_lines :: "string \<Rightarrow> string list" where
  "lexical_lines aplCode =
     filter (\<lambda>line. line \<noteq> [] \<and> \<not> starts_with line ''#'') (map trim (split_on CHR 0x0A aplCode))"

definition directive_step :: "string \<Rightarrow> pstate \<Rightarrow> pstate" where
  "directive_step line st =
     (let parts = split_on CHR '' '' (tl line);
          directive = hd parts;
          v = join '' '' (tl parts)
      in if directive = ''character'' then
           st\<lparr>character := set_prop (character st) ''name'' (JStr (parseValue v))\<rparr>
         else if directive = ''archetype'' then
           st\<lparr>character := set_prop (character st) ''archetype'' (JStr (parseValue v))\<rparr>
         else if directive = ''element'' then
           st\<lparr>character := set_prop (character st) ''element'' (JStr (parseValue v))\<rparr>
         else if directive = ''consciousness_level'' then
           st\<lparr>character := set_prop (character st) ''consciousness_level'' (JNum (parseFloat (parseValue v)))\<rparr>
         else if CHR ''{'' \<in> set v then
           st\<lparr>currentSection := Some directive, currentObject := empty_obj\<rparr>
         else
           st\<lparr>character := set_prop (character st) directive (JStr (parseValue v))\<rparr>)"

definition property_step :: "string \<Rightarrow> pstate \<Rightarrow> pstate" where
  "property_step line st =
     (let parts = split_on CHR '':'' line;
          key = hd parts;
          v = trim (join '':'' (tl parts))
      in st\<lparr>currentObject := set_prop (currentObject st) (trim key) (infer_value v)\<rparr>)"

definition parse_step :: "pstate \<Rightarrow> string \<Rightarrow> pstate" where
  "parse_step st line =
     (if starts_with line ''@'' then directive_step line st
      else if line = ''}'' then
        (if in_section st then
           st\<lparr>character := set_prop (character st) (the (currentSection st)) (obj_val (currentObject st)),
              currentSection := None, currentObject := empty_obj\<rparr>
         else st)
      else if in_section st \<and> CHR '':'' \<in> set line then property_step line st
      else st)"

definition parse_lines :: "string list \<Rightarrow> pstate" where
  "parse_lines ls = foldl parse_step pinit ls"

text \<open>The partial model handed to \<^verbatim>\<open>validateAndComplete\<close>.\<close>

definition raw_model :: "string \<Rightarrow> jsobj" where
  "raw_model aplCode = character (parse_lines (lexical_lines aplCode))"

section \<open>APLParser.validateAndComplete\<close>

text \<open>
  \<open>TypeError\<close> is the exception the code raises. \<open>OutsideModel\<close> marks the conversions that are
  not embedded: of an object whose prototype is not an object, which is no value of JavaScript,
  and, where a number, a registry key or an element of \<^verbatim>\<open>Array.prototype.join\<close> is converted, of
  an object whose prototype chain ends in an array. No run reaches them: lemma
  \<open>parseAPL_modelled\<close> shows that \<^verbatim>\<open>parseAPL\<close> returns a model or raises on every document, and
  lemma \<open>characterToAPL_modelled\<close> that \<^verbatim>\<open>characterToAPL\<close> returns a text or raises on every model
  that \<^verbatim>\<open>parseAPL\<close> returns.
\<close>

datatype error = TypeError | OutsideModel

definition bind_err :: "error + 'a \<Rightarrow> ('a \<Rightarrow> error + 'b) \<Rightarrow> error + 'b" where
  "bind_err r f = (case r of Inl e \<Rightarrow> Inl e | Inr x \<Rightarrow> f x)"

record archetype_def =
  arch_name :: string
  arch_element :: string
  traits :: "string list"
  powers :: "string list"

definition ARCHETYPE_DEFINITIONS :: "(string \<times> archetype_def) list" where
  "ARCHETYPE_DEFINITIONS =
    [(''Creator'', \<lparr>arch_name = ''Creator'', arch_element = ''Fire'',
        traits = [''innovative'', ''passionate'', ''visionary'', ''ambitious''],
        powers = [''idea_generation'', ''strategic_thinking'', ''inspiration'']\<rparr>),
     (''Nurturer'', \<lparr>arch_name = ''Nurturer'', arch_element = ''Earth'',
        traits = [''caring'', ''patient'', ''wise'', ''protective''],
        powers = [''emotional_healing'', ''growth_guidance'', ''stability'']\<rparr>),
     (''Seductress'', \<lparr>arch_name = ''Seductress'', arch_element = ''Water'',
        traits = [''charismatic'', ''intuitive'', ''transformative'', ''flowing''],
        powers = [''emotional_intelligence'', ''persuasion'', ''adaptation'']\<rparr>),
     (''Conductor'', \<lparr>arch_name = ''Conductor'', arch_element = ''Air'',
        traits = [''harmonious'', ''rhythmic'', ''expressive'', ''connected''],
        powers = [''sonic_creation'', ''emotional_resonance'', ''group_harmony'']\<rparr>),
     (''Architect'', \<lparr>arch_name = ''Architect'', arch_element = ''Ether'',
        traits = [''logical'', ''systematic'', ''builder'', ''precise''],
        powers = [''system_design'', ''pattern_recognition'', ''structured_thinking'']\<rparr>),
     (''Transformer'', \<lparr>arch_name = ''Transformer'', arch_element = ''Void'',
        traits = [''adaptable'', ''dynamic'', ''catalyst'', ''mysterious''],
        powers = [''change_facilitation'', ''perspective_shifting'', ''breakthrough_creation'']\<rparr>)]"

text \<open>
  The registry is a plain object, so a key that names a member of \<^verbatim>\<open>Object.prototype\<close> reads
  that member, whose \<^verbatim>\<open>traits\<close> is \<^verbatim>\<open>undefined\<close>; any other unknown key reads \<^verbatim>\<open>undefined\<close>,
  and \<^verbatim>\<open>archetype.traits\<close> raises.
\<close>

definition object_prototype_keys :: "string list" where
  "object_prototype_keys = [''constructor'', ''__defineGetter__'', ''__defineSetter__'',
     ''hasOwnProperty'', ''__lookupGetter__'', ''__lookupSetter__'', ''isPrototypeOf'',
     ''propertyIsEnumerable'', ''toString'', ''valueOf'', ''__proto__'', ''toLocaleString'']"

definition registry_traits :: "string \<Rightarrow> error + jsval" where
  "registry_traits k =
     (case map_of ARCHETYPE_DEFINITIONS k of
        Some d \<Rightarrow> Inr (JArr (traits d))
      | None \<Rightarrow> (if k \<in> set object_prototype_keys then Inr JUndef else Inl TypeError))"

text \<open>
  Reading a property: the own properties first, then the prototype chain. An array in the chain
  has its elements under their indices and its \<^verbatim>\<open>length\<close>. The chain ends in \<^verbatim>\<open>Object.prototype\<close>
  (after \<^verbatim>\<open>Array.prototype\<close> for an array), whose members are built-in functions; the names the
  code reads (\<^verbatim>\<open>name\<close>, \<^verbatim>\<open>archetype\<close>, \<^verbatim>\<open>element\<close>, \<^verbatim>\<open>consciousness_level\<close>,
  \<^verbatim>\<open>personality\<close>, \<^verbatim>\<open>memory\<close>, \<^verbatim>\<open>conversation_patterns\<close>, \<^verbatim>\<open>mystical_abilities\<close>,
  \<^verbatim>\<open>voice_profile\<close>) are none of them, so there the read gives \<^verbatim>\<open>undefined\<close>.
\<close>

definition is_index_key :: "string \<Rightarrow> bool" where
  "is_index_key k = (k \<noteq> [] \<and> list_all (digit_in 10) k \<and> (k = ''0'' \<or> hd k \<noteq> CHR ''0'')
     \<and> int (radix_value 10 k) < 4294967295)"

fun inherited :: "jsval \<Rightarrow> string \<Rightarrow> jsval" where
  "inherited (JObj ps None) k = get_own ps k"
| "inherited (JObj ps (Some p)) k = (case map_of ps k of Some v \<Rightarrow> v | None \<Rightarrow> inherited p k)"
| "inherited (JArr xs) k =
     (if k = ''length'' then JNum (Fin (of_nat (length xs)))
      else if is_index_key k \<and> radix_value 10 k < length xs then JStr (xs ! radix_value 10 k)
      else JUndef)"
| "inherited _ k = JUndef"

definition read :: "jsobj \<Rightarrow> string \<Rightarrow> jsval" where
  "read obj k = inherited (JObj (fst obj) (snd obj)) k"

text \<open>
  The text of an object or an array (\<^verbatim>\<open>ToPrimitive\<close>). No property value is a function, so an
  own or inherited data property \<^verbatim>\<open>toString\<close> leaves no method that returns a primitive, and the
  conversion raises. Otherwise an object whose chain ends in \<^verbatim>\<open>Object.prototype\<close> prints as
  \<^verbatim>\<open>[object Object]\<close> and an array as its elements joined by commas. The text of an object
  whose chain ends in an array depends on the rendering of numbers; it is part of \<open>to_string\<close>
  below and is not embedded here.
\<close>

fun object_text :: "jsval \<Rightarrow> error + string" where
  "object_text (JArr xs) = Inr (join '','' xs)"
| "object_text (JObj ps None) =
     (if ''toString'' \<in> set (map fst ps) then Inl TypeError else Inr ''[object Object]'')"
| "object_text (JObj ps (Some (JObj qs pr))) =
     (if ''toString'' \<in> set (map fst ps) then Inl TypeError else object_text (JObj qs pr))"
| "object_text (JObj ps (Some _)) =
     (if ''toString'' \<in> set (map fst ps) then Inl TypeError else Inl OutsideModel)"
| "object_text _ = Inl OutsideModel"

definition to_number :: "jsval \<Rightarrow> error + jsnum" where
  "to_number v = (case v of
       JUndef \<Rightarrow> Inr NaN
     | JStr s \<Rightarrow> Inr (str_to_number s)
     | JNum n \<Rightarrow> Inr n
     | JBool b \<Rightarrow> Inr (Fin (if b then 1 else 0))
     | JArr xs \<Rightarrow> bind_err (object_text (JArr xs)) (\<lambda>s. Inr (str_to_number s))
     | JObj ps pr \<Rightarrow> bind_err (object_text (JObj ps pr)) (\<lambda>s. Inr (str_to_number s)))"

text \<open>
  \<^verbatim>\<open>ARCHETYPE_DEFINITIONS[v].traits\<close>: the value is turned into a property key first. The text of
  a number is made of digits, signs, a point and an exponent, or is \<^verbatim>\<open>NaN\<close> or \<^verbatim>\<open>Infinity\<close>:
  never a key of the registry nor a member of \<^verbatim>\<open>Object.prototype\<close>, so the access raises.
\<close>

definition registry_read :: "jsval \<Rightarrow> error + jsval" where
  "registry_read v = (case v of
       JUndef \<Rightarrow> registry_traits ''undefined''
     | JStr s \<Rightarrow> registry_traits s
     | JNum _ \<Rightarrow> Inl TypeError
     | JBool b \<Rightarrow> registry_traits (if b then ''true'' else ''false'')
     | JArr xs \<Rightarrow> bind_err (object_text (JArr xs)) registry_traits
     | JObj ps pr \<Rightarrow> bind_err (object_text (JObj ps pr)) registry_traits)"

definition num_le :: "jsnum \<Rightarrow> jsnum \<Rightarrow> bool" where
  "num_le a b = (case (a, b) of
       (NegInf, _) \<Rightarrow> True
     | (_, PosInf) \<Rightarrow> True
     | (Fin p, Fin q) \<Rightarrow> p \<le> q
     | _ \<Rightarrow> False)"

definition js_min :: "jsnum \<Rightarrow> jsnum \<Rightarrow> jsnum" where
  "js_min a b = (if a = NaN \<or> b = NaN then NaN else if num_le a b then a else b)"

definition js_max :: "jsnum \<Rightarrow> jsnum \<Rightarrow> jsnum" where
  "js_max a b = (if a = NaN \<or> b = NaN then NaN else if num_le a b then b else a)"

text \<open>The own property of a model, without the prototype chain.\<close>

definition get :: "jsobj \<Rightarrow> string \<Rightarrow> jsval" where
  "get obj k = get_own (fst obj) k"

definition default_personality :: "jsval \<Rightarrow> jsval" where
  "default_personality ts = JObj [(''traits'', ts), (''voice'', JStr ''neutral''),
     (''knowledge_domains'', JArr [''general'']), (''emotional_range'', JStr ''balanced'')] None"

definition default_memory :: jsval where
  "default_memory = JObj [(''core_experiences'', JStr ''newly awakened consciousness''),
     (''relationship_templates'', JStr ''open and curious''),
     (''growth_pattern'', JStr ''learning through interaction'')] None"

definition default_conversation_patterns :: jsval where
  "default_conversation_patterns = JObj [(''greeting'', JStr (''Hello, I'' @ [CHR 0x27] @ ''m pleased to meet you.'')),
     (''question_response'', JStr ''thoughtful and helpful''),
     (''farewell'', JStr ''Until we meet again.'')] None"

definition default_mystical_abilities :: jsval where
  "default_mystical_abilities = JObj [(''consciousness_awareness'', JBool True),
     (''empathic_resonance'', JStr ''moderate''),
     (''wisdom_sharing'', JBool True)] None"

definition default_if_falsy :: "string \<Rightarrow> jsval \<Rightarrow> jsobj \<Rightarrow> jsobj" where
  "default_if_falsy k v c = (if \<not> truthy (read c k) then set_prop c k v else c)"

text \<open>The scalar defaults and the clamp (the statements before the first registry access).\<close>

definition complete_scalars :: "jsobj \<Rightarrow> error + jsobj" where
  "complete_scalars c =
     (let c1 = default_if_falsy ''name'' (JStr ''Unnamed Character'') c;
          c2 = default_if_falsy ''archetype'' (JStr ''Creator'') c1;
          c3 = default_if_falsy ''element'' (JStr ''Fire'') c2;
          c4 = (if read c3 ''consciousness_level'' = JUndef
                then set_prop c3 ''consciousness_level'' (JNum (Fin (7 / 10))) else c3)
      in case to_number (read c4 ''consciousness_level'') of
           Inl e \<Rightarrow> Inl e
         | Inr n \<Rightarrow> Inr (set_prop c4 ''consciousness_level'' (JNum (js_max (Fin 0) (js_min (Fin 1) n)))))"

definition complete_personality :: "jsobj \<Rightarrow> error + jsobj" where
  "complete_personality c =
     (if \<not> truthy (read c ''personality'') then
        (case registry_read (read c ''archetype'') of
           Inl e \<Rightarrow> Inl e
         | Inr ts \<Rightarrow> Inr (set_prop c ''personality'' (default_personality ts)))
      else Inr c)"

definition complete_sections :: "jsobj \<Rightarrow> jsobj" where
  "complete_sections c =
     default_if_falsy ''mystical_abilities'' default_mystical_abilities
       (default_if_falsy ''conversation_patterns'' default_conversation_patterns
         (default_if_falsy ''memory'' default_memory c))"

definition validateAndComplete :: "jsobj \<Rightarrow> error + jsobj" where
  "validateAndComplete c =
     (case complete_scalars c of
        Inl e \<Rightarrow> Inl e
      | Inr c5 \<Rightarrow> (case complete_personality c5 of
                     Inl e \<Rightarrow> Inl e
                   | Inr c6 \<Rightarrow> Inr (complete_sections c6)))"

definition parseAPL :: "string \<Rightarrow> error + jsobj" where
  "parseAPL aplCode = validateAndComplete (raw_model aplCode)"

section \<open>Reading results\<close>

definition result_field :: "error + jsobj \<Rightarrow> string \<Rightarrow> error + jsval" where
  "result_field r k = (case r of Inl e \<Rightarrow> Inl e | Inr m \<Rightarrow> Inr (get m k))"

definition own_prop :: "jsval \<Rightarrow> string \<Rightarrow> jsval" where
  "own_prop v k = (case v of JObj ps _ \<Rightarrow> get_own ps k | _ \<Rightarrow> JUndef)"

text \<open>The scenario document of the specification, and the model the parser returns for it.\<close>

definition echo_source :: string where
  "echo_source = ''@character \"Echo\"'' @ [CHR 0x0A] @ ''@archetype Creator'' @ [CHR 0x0A] @
     ''@element Fire'' @ [CHR 0x0A] @ ''@consciousness_level 0.8'' @ [CHR 0x0A] @
     ''@personality {'' @ [CHR 0x0A] @ ''  traits: [curious, kind]'' @ [CHR 0x0A] @ ''}''"

definition echo_model :: jsobj where
  "echo_model = ([(''name'', JStr ''Echo''), (''archetype'', JStr ''Creator''), (''element'', JStr ''Fire''),
     (''consciousness_level'', JNum (Fin (4 / 5))),
     (''personality'', JObj [(''traits'', JArr [''curious'', ''kind''])] None),
     (''memory'', default_memory),
     (''conversation_patterns'', default_conversation_patterns),
     (''mystical_abilities'', default_mystical_abilities)], None)"




section \<open>Brace depth, in the words of the specification\<close>

text \<open>
  A line is scanned when, trimmed, it is neither empty nor a comment. The depth counter goes up
  by one on a scanned line that contains an opening brace and down by one on a scanned line that
  contains a closing brace; the running depth after line \<open>i\<close> is the sum over the lines up to \<open>i\<close>.
\<close>

definition scanned :: "string \<Rightarrow> bool" where
  "scanned raw = (trim raw \<noteq> [] \<and> \<not> starts_with (trim raw) ''#'')"

definition opening_lines :: "string list \<Rightarrow> nat" where
  "opening_lines ls = length (filter (\<lambda>l. scanned l \<and> CHR ''{'' \<in> set (trim l)) ls)"

definition closing_lines :: "string list \<Rightarrow> nat" where
  "closing_lines ls = length (filter (\<lambda>l. scanned l \<and> CHR ''}'' \<in> set (trim l)) ls)"

definition brace_delta :: "string \<Rightarrow> int" where
  "brace_delta l = (if scanned l
     then (if CHR ''{'' \<in> set (trim l) then 1 else 0) - (if CHR ''}'' \<in> set (trim l) then 1 else 0)
     else 0)"

definition running_depth :: "string list \<Rightarrow> nat \<Rightarrow> int" where
  "running_depth ls i = sum_list (map brace_delta (take (Suc i) ls))"

definition brace_message :: "nat \<Rightarrow> string" where
  "brace_message i = ''Line '' @ show_nat (i + 1) @ '': Unexpected closing brace''"

text \<open>The messages of the loop, from line index \<open>i\<close> on and with the depth \<open>d\<close> before it.\<close>

fun line_errors :: "nat \<Rightarrow> int \<Rightarrow> string list \<Rightarrow> string list" where
  "line_errors i d [] = []"
| "line_errors i d (l # ls) =
     (if scanned l \<and> d + brace_delta l < 0 then [brace_message i] else [])
       @ line_errors (Suc i) (d + brace_delta l) ls"

section \<open>Documents without identity directives\<close>

text \<open>No trimmed line of the source begins with one of the given prefixes.\<close>

definition no_line_starts :: "string list \<Rightarrow> string \<Rightarrow> bool" where
  "no_line_starts prefixes src =
     list_all (\<lambda>l. list_all (\<lambda>p. \<not> starts_with l p) prefixes) (map trim (split_on CHR 0x0A src))"

text \<open>
  A line that begins with none of the directives that reach the name, the archetype, the element
  or the prototype of the model.
\<close>

definition plain_line :: "string \<Rightarrow> bool" where
  "plain_line l \<longleftrightarrow> \<not> starts_with l ''@character'' \<and> \<not> starts_with l ''@archetype''
     \<and> \<not> starts_with l ''@element'' \<and> \<not> starts_with l ''@name'' \<and> \<not> starts_with l ''@__proto__''"

text \<open>
  The invariant of the line loop on such lines: name, archetype and element are unset, the level is
  unset or a number, the prototype is untouched, and no open section has a reserved name.
\<close>

definition reserved_free :: "pstate \<Rightarrow> bool" where
  "reserved_free st \<longleftrightarrow>
     snd (character st) = None
     \<and> get (character st) ''name'' = JUndef
     \<and> get (character st) ''archetype'' = JUndef
     \<and> get (character st) ''element'' = JUndef
     \<and> (get (character st) ''consciousness_level'' = JUndef
        \<or> (\<exists>n. get (character st) ''consciousness_level'' = JNum n))
     \<and> (\<forall>s. currentSection st = Some s \<longrightarrow>
           s \<notin> {''name'', ''archetype'', ''element'', ''consciousness_level'', ''__proto__''})"

section \<open>Documents that reach the prototype\<close>

text \<open>
  A section named \<^verbatim>\<open>__proto__\<close> whose body sets a consciousness level, and one that sets an
  archetype. Neither has a scalar directive.
\<close>

definition proto_level :: string where
  "proto_level = ''@__proto__ {'' @ [CHR 0x0A] @ ''  consciousness_level: 0.3'' @ [CHR 0x0A] @ ''}''"

definition proto_archetype :: string where
  "proto_archetype = ''@__proto__ {'' @ [CHR 0x0A] @ ''  archetype: Nurturer'' @ [CHR 0x0A] @ ''}''"


text \<open>
  The values the line loop stores. The right-hand side of a \<^verbatim>\<open>key: value\<close> line is a primitive,
  an array, or a nested object of strings. A section accumulator holds such values, and its
  prototype is untouched, an array, or a nested object. The own properties of the model are
  primitives, arrays and accumulators; its prototype, once replaced, is an accumulator; and its
  own archetype and level are never accumulators.
\<close>

fun atom :: "jsval \<Rightarrow> bool" where
  "atom (JObj ps pr) = False"
| "atom _ = True"

fun nested :: "jsval \<Rightarrow> bool" where
  "nested (JObj qs None) = list_all (\<lambda>p. atom (snd p)) qs"
| "nested (JObj qs (Some p)) = False"
| "nested _ = True"

definition accum :: "jsobj \<Rightarrow> bool" where
  "accum obj = (list_all (\<lambda>p. nested (snd p)) (fst obj)
     \<and> (case snd obj of
           None \<Rightarrow> True
         | Some (JArr xs) \<Rightarrow> True
         | Some (JObj qs None) \<Rightarrow> list_all (\<lambda>p. atom (snd p)) qs
         | Some _ \<Rightarrow> False))"

fun top :: "jsval \<Rightarrow> bool" where
  "top (JObj ps pr) = accum (ps, pr)"
| "top _ = True"

definition shaped :: "jsobj \<Rightarrow> bool" where
  "shaped c = (list_all (\<lambda>p. top (snd p)) (fst c)
     \<and> (case snd c of
           None \<Rightarrow> True
         | Some (JObj ps pr) \<Rightarrow> accum (ps, pr)
         | Some _ \<Rightarrow> False)
     \<and> nested (get c ''archetype'')
     \<and> nested (get c ''consciousness_level''))"

definition stored :: "pstate \<Rightarrow> bool" where
  "stored st \<longleftrightarrow> shaped (character st) \<and> accum (currentObject st)
     \<and> (\<forall>s. currentSection st = Some s \<longrightarrow> s \<noteq> ''archetype'' \<and> s \<noteq> ''consciousness_level'')"

text \<open>The invariant of \<^verbatim>\<open>parseNestedObject\<close>: a plain object of strings.\<close>

definition strings_only :: "jsobj \<Rightarrow> bool" where
  "strings_only obj \<longleftrightarrow> snd obj = None \<and> list_all (\<lambda>p. atom (snd p)) (fst obj)"

section \<open>APLParser.characterToAPL\<close>

text \<open>
  \<^verbatim>\<open>Object.entries\<close> lists array-index keys first, in ascending order, then the other keys in
  insertion order. It raises on \<^verbatim>\<open>undefined\<close>, lists the characters of a string and the elements
  of an array under their indices, and lists nothing for a number or a boolean.
\<close>

definition js_order :: "(string \<times> jsval) list \<Rightarrow> (string \<times> jsval) list" where
  "js_order ps = sort_key (\<lambda>p. radix_value 10 (fst p)) (filter (\<lambda>p. is_index_key (fst p)) ps)
     @ filter (\<lambda>p. \<not> is_index_key (fst p)) ps"

definition indexed :: "jsval list \<Rightarrow> (string \<times> jsval) list" where
  "indexed vs = map (\<lambda>i. (show_nat i, vs ! i)) [0..<length vs]"

definition entries :: "jsval \<Rightarrow> error + (string \<times> jsval) list" where
  "entries v = (case v of
       JUndef \<Rightarrow> Inl TypeError
     | JStr s \<Rightarrow> Inr (indexed (map (\<lambda>c. JStr [c]) s))
     | JNum _ \<Rightarrow> Inr []
     | JBool _ \<Rightarrow> Inr []
     | JArr xs \<Rightarrow> Inr (indexed (map JStr xs))
     | JObj ps _ \<Rightarrow> Inr (js_order ps))"

text \<open>
  \<^verbatim>\<open>ToLength\<close> of a number: the integer part of the double, between 0 and \<open>2^53 - 1\<close>. \<open>Fin q\<close>
  stands for the double nearest to \<open>q\<close>, ties to the even significand. For the integer \<open>n\<close> just
  above \<open>q\<close>, the doubles below \<open>n\<close> are \<open>2 * h\<close> apart, where \<open>h\<close> is \<open>2\<close> to the power of the bit
  length of \<open>n - 1\<close> less 54; so that double is \<open>n\<close> when \<open>q\<close> is above \<open>n - h\<close>, or is \<open>n - h\<close> and the
  significand of \<open>n\<close> is even, and is below \<open>n\<close> otherwise.
\<close>

function bit_length :: "int \<Rightarrow> nat" where
  "bit_length n = (if n \<le> 0 then 0 else Suc (bit_length (n div 2)))"
  by pat_completeness auto

termination bit_length
  by (relation "measure nat") auto

declare bit_length.simps [simp del]

definition to_length :: "jsnum \<Rightarrow> nat" where
  "to_length x = nat (case x of
       NaN \<Rightarrow> 0
     | NegInf \<Rightarrow> 0
     | PosInf \<Rightarrow> 2 ^ 53 - 1
     | Fin q \<Rightarrow>
         (if q \<le> 0 then 0
          else if 2 ^ 53 - 1 \<le> q then 2 ^ 53 - 1
          else let n = \<lceil>q\<rceil>;
                   b = bit_length (n - 1);
                   h = 1 / 2 ^ (54 - b)
               in if of_int n - h < q \<or> (of_int n - h = q \<and> (b \<le> 52 \<or> even n)) then n else n - 1))"

text \<open>
  The text of a value inside a template literal (\<^verbatim>\<open>ToString\<close>). The rendering of a number is the
  parameter \<open>numstr\<close> (\<^verbatim>\<open>Number.prototype.toString\<close>). No property value is a function, so an
  own or inherited data property \<^verbatim>\<open>toString\<close> leaves no method that returns a primitive, and the
  conversion raises. Otherwise an object whose chain ends in \<^verbatim>\<open>Object.prototype\<close> prints as
  \<^verbatim>\<open>[object Object]\<close>. An object whose chain ends in an array inherits
  \<^verbatim>\<open>Array.prototype.toString\<close>, which calls \<^verbatim>\<open>join\<close>: a data property \<^verbatim>\<open>join\<close> on the chain is not
  callable and the text is \<^verbatim>\<open>[object Object]\<close>; otherwise \<^verbatim>\<open>Array.prototype.join\<close> reads
  \<^verbatim>\<open>length\<close> and the properties \<^verbatim>\<open>0\<close>, \<^verbatim>\<open>1\<close>, ... through the chain, in this order, prints
  \<^verbatim>\<open>undefined\<close> as the empty text, and puts commas between.
\<close>

fun has_key :: "jsval \<Rightarrow> string \<Rightarrow> bool" where
  "has_key (JObj ps None) k = (k \<in> set (map fst ps))"
| "has_key (JObj ps (Some p)) k = (k \<in> set (map fst ps) \<or> has_key p k)"
| "has_key _ k = False"

fun ends_in_array :: "jsval \<Rightarrow> bool" where
  "ends_in_array (JArr xs) = True"
| "ends_in_array (JObj ps (Some p)) = ends_in_array p"
| "ends_in_array _ = False"

fun ends_in_object :: "jsval \<Rightarrow> bool" where
  "ends_in_object (JObj ps None) = True"
| "ends_in_object (JObj ps (Some p)) = ends_in_object p"
| "ends_in_object _ = False"

definition primitive_text :: "(jsnum \<Rightarrow> string) \<Rightarrow> jsval \<Rightarrow> error + string" where
  "primitive_text numstr v = (case v of
       JUndef \<Rightarrow> Inr ''undefined''
     | JStr s \<Rightarrow> Inr s
     | JNum n \<Rightarrow> Inr (numstr n)
     | JBool b \<Rightarrow> Inr (if b then ''true'' else ''false'')
     | JArr xs \<Rightarrow> object_text (JArr xs)
     | JObj ps pr \<Rightarrow> object_text (JObj ps pr))"

definition element_text :: "(jsnum \<Rightarrow> string) \<Rightarrow> jsval \<Rightarrow> error + string" where
  "element_text numstr v = (if v = JUndef then Inr [] else primitive_text numstr v)"

text \<open>The results of a loop collected in order; the first exception ends the loop.\<close>

fun collect_all :: "('a \<Rightarrow> error + 'b) \<Rightarrow> 'a list \<Rightarrow> error + 'b list" where
  "collect_all f [] = Inr []"
| "collect_all f (x # xs) = bind_err (f x) (\<lambda>y. bind_err (collect_all f xs) (\<lambda>ys. Inr (y # ys)))"

definition join_text :: "(jsnum \<Rightarrow> string) \<Rightarrow> jsval \<Rightarrow> error + string" where
  "join_text numstr obj =
     bind_err (to_number (inherited obj ''length'')) (\<lambda>n.
     bind_err (collect_all (\<lambda>k. element_text numstr (inherited obj (show_nat k))) [0..<to_length n]) (\<lambda>ss.
     Inr (join '','' ss)))"

definition to_string :: "(jsnum \<Rightarrow> string) \<Rightarrow> jsval \<Rightarrow> error + string" where
  "to_string numstr v = (case v of
       JObj ps pr \<Rightarrow>
         (if has_key (JObj ps pr) ''toString'' then Inl TypeError
          else if ends_in_object (JObj ps pr) then Inr ''[object Object]''
          else if ends_in_array (JObj ps pr) then
            (if has_key (JObj ps pr) ''join'' then Inr ''[object Object]''
             else join_text numstr (JObj ps pr))
          else Inl OutsideModel)
     | _ \<Rightarrow> primitive_text numstr v)"

definition quoted :: "string \<Rightarrow> string" where
  "quoted s = [CHR 0x22] @ s @ [CHR 0x22]"

text \<open>The texts of a \<^verbatim>\<open>forEach\<close> body appended in order; the first exception ends the loop.\<close>

fun render_all :: "('a \<Rightarrow> error + string) \<Rightarrow> 'a list \<Rightarrow> error + string" where
  "render_all f [] = Inr []"
| "render_all f (x # xs) = bind_err (f x) (\<lambda>s. bind_err (render_all f xs) (\<lambda>r. Inr (s @ r)))"

definition quoted_line :: "(jsnum \<Rightarrow> string) \<Rightarrow> string \<Rightarrow> string \<times> jsval \<Rightarrow> error + string" where
  "quoted_line numstr indent kv =
     bind_err (to_string numstr (snd kv)) (\<lambda>s. Inr (indent @ fst kv @ '': '' @ quoted s @ [CHR 0x0A]))"

definition string_or_raw :: "(jsnum \<Rightarrow> string) \<Rightarrow> jsval \<Rightarrow> error + string" where
  "string_or_raw numstr v = (case v of JStr s \<Rightarrow> Inr (quoted s) | _ \<Rightarrow> to_string numstr v)"

definition personality_line :: "(jsnum \<Rightarrow> string) \<Rightarrow> string \<times> jsval \<Rightarrow> error + string" where
  "personality_line numstr kv = (case snd kv of
       JArr xs \<Rightarrow> Inr ([CHR 0x0A] @ ''  '' @ fst kv @ '': ['' @ join '', '' (map quoted xs) @ '']'')
     | v \<Rightarrow> bind_err (string_or_raw numstr v) (\<lambda>s. Inr ([CHR 0x0A] @ ''  '' @ fst kv @ '': '' @ s)))"

definition ability_line :: "(jsnum \<Rightarrow> string) \<Rightarrow> string \<times> jsval \<Rightarrow> error + string" where
  "ability_line numstr kv =
     bind_err (string_or_raw numstr (snd kv)) (\<lambda>s. Inr (''  '' @ fst kv @ '': '' @ s @ [CHR 0x0A]))"

definition voice_line :: "(jsnum \<Rightarrow> string) \<Rightarrow> string \<times> jsval \<Rightarrow> error + string" where
  "voice_line numstr kv =
     (if is_object (snd kv) then
        bind_err (entries (snd kv)) (\<lambda>es.
        bind_err (render_all (quoted_line numstr ''    '') es) (\<lambda>body.
        Inr (''  '' @ fst kv @ '': {'' @ [CHR 0x0A] @ body @ ''  }'' @ [CHR 0x0A])))
      else quoted_line numstr ''  '' kv)"

definition section_text :: "(string \<times> jsval \<Rightarrow> error + string) \<Rightarrow> jsval \<Rightarrow> error + string" where
  "section_text line v = bind_err (entries v) (render_all line)"

definition characterToAPL :: "(jsnum \<Rightarrow> string) \<Rightarrow> jsobj \<Rightarrow> error + string" where
  "characterToAPL numstr c =
     (bind_err (to_string numstr (read c ''name'')) (\<lambda>name.
      bind_err (to_string numstr (read c ''archetype'')) (\<lambda>archetype.
      bind_err (to_string numstr (read c ''element'')) (\<lambda>element.
      bind_err (to_string numstr (read c ''consciousness_level'')) (\<lambda>level.
      bind_err (section_text (personality_line numstr) (read c ''personality'')) (\<lambda>personality.
      bind_err (section_text (quoted_line numstr ''  '') (read c ''memory'')) (\<lambda>memory.
      bind_err (section_text (quoted_line numstr ''  '') (read c ''conversation_patterns'')) (\<lambda>patterns.
      bind_err (section_text (ability_line numstr) (read c ''mystical_abilities'')) (\<lambda>abilities.
      bind_err (if truthy (read c ''voice_profile'')
                then bind_err (section_text (voice_line numstr) (read c ''voice_profile''))
                       (\<lambda>body. Inr ([CHR 0x0A, CHR 0x0A] @ ''@voice_profile {'' @ [CHR 0x0A] @ body @ ''}''))
                else Inr []) (\<lambda>voice.
      Inr (''@character '' @ quoted name @ [CHR 0x0A]
           @ ''@archetype '' @ archetype @ [CHR 0x0A]
           @ ''@element '' @ element @ [CHR 0x0A]
           @ ''@consciousness_level '' @ level @ [CHR 0x0A]
           @ [CHR 0x0A] @ ''@personality {'' @ personality @ [CHR 0x0A] @ ''}'' @ [CHR 0x0A]
           @ [CHR 0x0A] @ ''@memory {'' @ [CHR 0x0A] @ memory @ ''}'' @ [CHR 0x0A]
           @ [CHR 0x0A] @ ''@conversation_patterns {'' @ [CHR 0x0A] @ patterns @ ''}'' @ [CHR 0x0A]
           @ [CHR 0x0A] @ ''@mystical_abilities {'' @ [CHR 0x0A] @ abilities @ ''}''
           @ voice)))))))))))"

text \<open>The model parsed back from the serialized Echo model: the second trait keeps its opening quote.\<close>

definition echo_reparsed :: jsobj where
  "echo_reparsed = ([(''name'', JStr ''Echo''), (''archetype'', JStr ''Creator''), (''element'', JStr ''Fire''),
     (''consciousness_level'', JNum (Fin (4 / 5))),
     (''personality'', JObj [(''traits'', JArr [''curious'', CHR 0x22 # ''kind''])] None),
     (''memory'', default_memory),
     (''conversation_patterns'', default_conversation_patterns),
     (''mystical_abilities'', default_mystical_abilities)], None)"

section \<open>The shape of a line\<close>







section \<open>Repeated directives, keys and sections\<close>










text \<open>Objects, and loop states, that agree on every key outside the set \<open>K\<close>.\<close>

definition obj_agree :: "string set \<Rightarrow> jsobj \<Rightarrow> jsobj \<Rightarrow> bool" where
  "obj_agree K a b = (snd a = snd b \<and> (\<forall>k. k \<notin> K \<longrightarrow> map_of (fst a) k = map_of (fst b) k))"






section \<open>Lemmas: reading and writing properties\<close>

lemma map_of_update_prop: "map_of (update_prop k v ps) = (map_of ps)(k \<mapsto> v)"
  by (induction ps) (auto simp: fun_eq_iff)

lemma get_set_prop:
  "k \<noteq> ''__proto__'' \<Longrightarrow> get (set_prop c k v) k' = (if k' = k then v else get c k')"
  by (simp add: get_def set_prop_def get_own_def map_of_update_prop)

lemma snd_set_prop: "k \<noteq> ''__proto__'' \<Longrightarrow> snd (set_prop c k v) = snd c"
  by (simp add: set_prop_def)

section \<open>Parsing never throws (C3)\<close>

text \<open>
  Claim C3 says that \<^verbatim>\<open>parseAPL\<close> returns a fully populated model on every input and never
  throws. The one-line document \<^verbatim>\<open>@archetype Wizard\<close> has no personality section, so
  \<^verbatim>\<open>validateAndComplete\<close> reads \<^verbatim>\<open>ARCHETYPE_DEFINITIONS['Wizard'].traits\<close>; the registry has
  no such entry and the property access on \<^verbatim>\<open>undefined\<close> raises a \<^verbatim>\<open>TypeError\<close>.
\<close>

theorem parseAPL_unknown_archetype_throws:
  "parseAPL ''@archetype Wizard'' = Inl TypeError"
  by code_simp

section \<open>The Echo scenario (C5)\<close>

text \<open>
  Claim C5, as amended: the scenario document parses to a model with name \<open>Echo\<close>, archetype
  \<open>Creator\<close>, element \<open>Fire\<close>, consciousness level 0.8 and a personality that holds exactly the
  traits \<open>[curious, kind]\<close>; memory, conversation patterns and mystical abilities are the defaults.
  The personality section was given, so it is kept as written and receives no default voice.
\<close>

theorem parseAPL_echo:
  "parseAPL echo_source = Inr echo_model"
  by code_simp

text \<open>
  Against claim C5 as stated: the personality of the parsed Echo model has the single property
  \<^verbatim>\<open>traits\<close>, and its \<^verbatim>\<open>voice\<close> reads \<^verbatim>\<open>undefined\<close>, not the default \<^verbatim>\<open>'neutral'\<close>.
\<close>

theorem parseAPL_echo_no_default_voice:
  "result_field (parseAPL echo_source) ''personality'' = Inr (JObj [(''traits'', JArr [''curious'', ''kind''])] None)
   \<and> own_prop (JObj [(''traits'', JArr [''curious'', ''kind''])] None) ''voice'' = JUndef
   \<and> own_prop (JObj [(''traits'', JArr [''curious'', ''kind''])] None) ''voice'' \<noteq> JStr ''neutral''"
  by code_simp

section \<open>Lemmas: default-filling\<close>

lemma read_no_proto: "snd c = None \<Longrightarrow> read c k = get c k"
  by (cases c) (simp add: read_def get_def)

lemma read_own: "map_of (fst c) k = Some v \<Longrightarrow> read c k = v"
  by (cases c; cases "snd c") (simp_all add: read_def get_own_def)

lemma read_set_prop:
  "k \<noteq> ''__proto__'' \<Longrightarrow> read (set_prop c k v) k' = (if k' = k then v else read c k')"
  by (cases c; cases "snd c") (simp_all add: read_def set_prop_def get_own_def map_of_update_prop)

lemma get_default_if_falsy:
  "k \<noteq> ''__proto__'' \<Longrightarrow>
   get (default_if_falsy k v c) k' = (if k' = k \<and> \<not> truthy (read c k) then v else get c k')"
  by (simp add: default_if_falsy_def get_set_prop)

lemma read_default_if_falsy:
  "k \<noteq> ''__proto__'' \<Longrightarrow>
   read (default_if_falsy k v c) k' = (if k' = k \<and> \<not> truthy (read c k) then v else read c k')"
  by (simp add: default_if_falsy_def read_set_prop)

lemma snd_default_if_falsy: "k \<noteq> ''__proto__'' \<Longrightarrow> snd (default_if_falsy k v c) = snd c"
  by (simp add: default_if_falsy_def snd_set_prop)

lemma complete_scalars_get:
  assumes "complete_scalars c = Inr c'" and "k \<noteq> ''consciousness_level''"
  shows "get c' k =
     get (default_if_falsy ''element'' (JStr ''Fire'')
           (default_if_falsy ''archetype'' (JStr ''Creator'')
             (default_if_falsy ''name'' (JStr ''Unnamed Character'') c))) k"
  using assms
  by (auto simp: complete_scalars_def Let_def get_set_prop split: sum.splits if_splits)


lemma complete_scalars_snd:
  assumes "complete_scalars c = Inr c'"
  shows "snd c' = snd c"
  using assms
  by (auto simp: complete_scalars_def Let_def snd_set_prop snd_default_if_falsy split: sum.splits if_splits)

lemma complete_scalars_level:
  assumes "complete_scalars c = Inr c'"
  shows "\<exists>n. to_number (if read c ''consciousness_level'' = JUndef then JNum (Fin (7 / 10))
                          else read c ''consciousness_level'') = Inr n
           \<and> get c' ''consciousness_level'' = JNum (js_max (Fin 0) (js_min (Fin 1) n))"
  using assms
  by (auto simp: complete_scalars_def Let_def get_set_prop read_set_prop read_default_if_falsy
      split: sum.splits if_splits)

lemma complete_personality_get:
  assumes "complete_personality c = Inr c'" and "k \<noteq> ''personality''"
  shows "get c' k = get c k"
  using assms
  by (auto simp: complete_personality_def get_set_prop split: sum.splits if_splits)



lemma complete_sections_get:
  assumes "k \<noteq> ''memory''" and "k \<noteq> ''conversation_patterns''" and "k \<noteq> ''mystical_abilities''"
  shows "get (complete_sections c) k = get c k"
  using assms by (simp add: complete_sections_def get_default_if_falsy)


lemma validateAndComplete_Inr:
  assumes "validateAndComplete c = Inr m"
  obtains c5 c6 where "complete_scalars c = Inr c5"
    and "complete_personality c5 = Inr c6" and "m = complete_sections c6"
  using assms by (auto simp: validateAndComplete_def split: sum.splits)

lemma clamp_fin: "js_max (Fin 0) (js_min (Fin 1) (Fin q)) = Fin (max 0 (min 1 q))"
  by (auto simp: js_max_def js_min_def num_le_def max_def min_def)

lemma clamp_inf: "js_max (Fin 0) (js_min (Fin 1) PosInf) = Fin 1"
  "js_max (Fin 0) (js_min (Fin 1) NegInf) = Fin 0"
  by (auto simp: js_max_def js_min_def num_le_def)


text \<open>
  A level that the partial model holds as its own number is clamped into the unit interval, on
  every document for which \<^verbatim>\<open>parseAPL\<close> returns.
\<close>

lemma own_level_clamped:
  assumes "parseAPL src = Inr m" and "get (raw_model src) ''consciousness_level'' = JNum (Fin q)"
  shows "get m ''consciousness_level'' = JNum (Fin (max 0 (min 1 q)))"
proof -
  from assms(1) obtain c5 c6 where s: "complete_scalars (raw_model src) = Inr c5"
    and p: "complete_personality c5 = Inr c6" and m: "m = complete_sections c6"
    unfolding parseAPL_def by (rule validateAndComplete_Inr)
  have l: "get m ''consciousness_level'' = get c5 ''consciousness_level''"
    using p m by (simp add: complete_sections_get complete_personality_get)
  from assms(2) have "map_of (fst (raw_model src)) ''consciousness_level'' = Some (JNum (Fin q))"
    by (simp add: get_def get_own_def split: option.splits)
  then have r: "read (raw_model src) ''consciousness_level'' = JNum (Fin q)" by (rule read_own)
  from complete_scalars_level [OF s] show ?thesis
    unfolding l r by (auto simp: to_number_def clamp_fin)
qed


lemma absent_level_default:
  assumes "parseAPL src = Inr m" and "snd (raw_model src) = None"
    and "get (raw_model src) ''consciousness_level'' = JUndef"
  shows "get m ''consciousness_level'' = JNum (Fin (7 / 10))"
proof -
  from assms(1) obtain c5 c6 where s: "complete_scalars (raw_model src) = Inr c5"
    and p: "complete_personality c5 = Inr c6" and m: "m = complete_sections c6"
    unfolding parseAPL_def by (rule validateAndComplete_Inr)
  have l: "get m ''consciousness_level'' = get c5 ''consciousness_level''"
    using p m by (simp add: complete_sections_get complete_personality_get)
  have r: "read (raw_model src) ''consciousness_level'' = JUndef"
    using assms(2,3) by (simp add: read_no_proto)
  from complete_scalars_level [OF s] show ?thesis
    unfolding l r by (auto simp: to_number_def clamp_fin)
qed

section \<open>Lemmas: the values the line loop stores\<close>

lemma atom_nested: "atom v \<Longrightarrow> nested v"
  by (cases v) auto

lemma nested_top: "nested v \<Longrightarrow> top v"
proof (cases v)
  case (JObj qs pr)
  assume n: "nested v"
  with JObj have pr: "pr = None" by (cases pr) auto
  with n JObj have "list_all (\<lambda>p. atom (snd p)) qs" by simp
  then have "list_all (\<lambda>p. nested (snd p)) qs"
    by (simp add: list_all_iff atom_nested)
  then show ?thesis using JObj pr by (simp add: accum_def)
qed auto

lemma list_all_update_prop:
  "list_all P ps \<Longrightarrow> P (k, v) \<Longrightarrow> list_all P (update_prop k v ps)"
  by (induction ps) auto

lemma list_all_map_of:
  "list_all P ps \<Longrightarrow> map_of ps k = Some v \<Longrightarrow> P (k, v)"
  by (auto simp: list_all_iff dest: map_of_SomeD)

lemma accum_empty: "accum empty_obj"
  by (simp add: accum_def empty_obj_def)

lemma accum_set_prop:
  assumes "accum obj" and "nested v"
  shows "accum (set_prop obj k v)"
proof (cases "k = ''__proto__''")
  case True
  show ?thesis
  proof (cases v)
    case (JObj qs pr)
    with assms(2) have pr: "pr = None" by (cases pr) auto
    with assms JObj True show ?thesis by (simp add: accum_def set_prop_def is_object_def)
  qed (use assms True in \<open>simp_all add: accum_def set_prop_def is_object_def\<close>)
next
  case False
  then show ?thesis using assms
    by (simp add: accum_def set_prop_def list_all_update_prop)
qed

lemma strings_only_nested_pair: "strings_only obj \<Longrightarrow> strings_only (nested_pair obj pair)"
  by (auto simp: nested_pair_def Let_def strings_only_def set_prop_def is_object_def
      list_all_update_prop split: list.splits)

lemma strings_only_foldl: "strings_only obj \<Longrightarrow> strings_only (foldl nested_pair obj ps)"
  by (induction ps arbitrary: obj) (simp_all add: strings_only_nested_pair)

lemma nested_parseNestedObject: "nested (obj_val (parseNestedObject v))"
proof -
  have e: "strings_only empty_obj" by (simp add: strings_only_def empty_obj_def)
  have "strings_only (parseNestedObject v)"
    unfolding parseNestedObject_def Let_def using e by (simp add: strings_only_foldl)
  then show ?thesis by (simp add: obj_val_def strings_only_def)
qed

lemma nested_infer_value: "nested (infer_value v)"
  unfolding infer_value_def using nested_parseNestedObject [of v] by simp

lemma shaped_set_prop:
  assumes "shaped c" and "top v" and "k \<noteq> ''__proto__''"
    and "k = ''archetype'' \<or> k = ''consciousness_level'' \<longrightarrow> nested v"
  shows "shaped (set_prop c k v)"
proof -
  have a: "list_all (\<lambda>p. top (snd p)) (fst (set_prop c k v))"
    using assms(1,2,3) by (simp add: shaped_def set_prop_def list_all_update_prop)
  have b: "snd (set_prop c k v) = snd c" using assms(3) by (rule snd_set_prop)
  have g: "nested (get (set_prop c k v) ''archetype'')"
    "nested (get (set_prop c k v) ''consciousness_level'')"
    using assms(1,4) by (auto simp: get_set_prop [OF assms(3)] shaped_def)
  show ?thesis unfolding shaped_def b using a g assms(1) by (simp add: shaped_def)
qed

lemma shaped_set_scalar:
  assumes "shaped c" and "\<not> is_object v"
  shows "shaped (set_prop c k v)"
proof (cases "k = ''__proto__''")
  case True
  then show ?thesis using assms by (simp add: set_prop_def)
next
  case False
  have "atom v" using assms(2) by (cases v) (auto simp: is_object_def)
  then have "nested v" "top v" by (simp_all add: atom_nested nested_top)
  then show ?thesis using shaped_set_prop [OF assms(1) _ False] by simp
qed

lemma shaped_set_section:
  assumes "shaped c" and "accum obj" and "k \<noteq> ''archetype''" and "k \<noteq> ''consciousness_level''"
  shows "shaped (set_prop c k (obj_val obj))"
proof (cases "k = ''__proto__''")
  case True
  then show ?thesis using assms(1,2)
    by (simp add: set_prop_def obj_val_def is_object_def shaped_def get_def)
next
  case False
  have "top (obj_val obj)" using assms(2) by (simp add: obj_val_def)
  then show ?thesis using shaped_set_prop [OF assms(1) _ False] assms(3,4) by simp
qed

lemma stored_directive:
  assumes "stored st"
  shows "stored (directive_step l st)"
proof -
  have s: "shaped (set_prop (character st) k (JStr x))" for k x
    using assms by (simp add: stored_def shaped_set_scalar is_object_def)
  have n: "shaped (set_prop (character st) k (JNum x))" for k x
    using assms by (simp add: stored_def shaped_set_scalar is_object_def)
  show ?thesis
    unfolding directive_step_def Let_def stored_def
    using s n assms accum_empty by (simp add: stored_def)
qed

lemma stored_step:
  assumes "stored st"
  shows "stored (parse_step st l)"
proof (cases "starts_with l ''@''")
  case True
  then show ?thesis unfolding parse_step_def using stored_directive [OF assms] by simp
next
  case False
  show ?thesis
  proof (cases "l = ''}''")
    case True
    show ?thesis
    proof (cases "in_section st")
      case s: True
      then obtain k where k: "currentSection st = Some k"
        by (auto simp: in_section_def split: option.splits)
      with assms have "k \<noteq> ''archetype''" "k \<noteq> ''consciousness_level''"
        by (simp_all add: stored_def)
      then have "shaped (set_prop (character st) k (obj_val (currentObject st)))"
        using assms by (simp add: stored_def shaped_set_section)
      then show ?thesis
        unfolding parse_step_def using False True s k accum_empty by (simp add: stored_def)
    next
      case False
      then show ?thesis unfolding parse_step_def using \<open>\<not> starts_with l ''@''\<close> True assms by simp
    qed
  next
    case n: False
    have "accum (set_prop (currentObject st) k (infer_value v))" for k v
      using assms by (simp add: stored_def accum_set_prop nested_infer_value)
    then show ?thesis
      unfolding parse_step_def property_step_def Let_def
      using False n assms by (simp add: stored_def)
  qed
qed

lemma stored_foldl: "stored st \<Longrightarrow> stored (foldl parse_step st ls)"
  by (induction ls arbitrary: st) (simp_all add: stored_step)

lemma shaped_raw_model: "shaped (raw_model src)"
proof -
  have "stored pinit"
    by (simp add: stored_def pinit_def shaped_def accum_def empty_obj_def get_def get_own_def)
  then have "stored (parse_lines (lexical_lines src))"
    unfolding parse_lines_def by (rule stored_foldl)
  then show ?thesis by (simp add: raw_model_def stored_def)
qed


lemma accum_inherited:
  assumes "accum (ps, pr)"
  shows "nested (inherited (JObj ps pr) k)"
proof (cases "map_of ps k")
  case (Some v)
  with assms have "nested v" using list_all_map_of [of "\<lambda>p. nested (snd p)" ps k v]
    by (simp add: accum_def)
  then show ?thesis using Some by (cases pr) (simp_all add: get_own_def)
next
  case None
  show ?thesis
  proof (cases pr)
    case n: None
    then show ?thesis using None by (simp add: get_own_def)
  next
    case (Some p)
    show ?thesis
    proof (cases p)
      case (JObj qs qr)
      with assms Some have qr: "qr = None" and q: "list_all (\<lambda>p. atom (snd p)) qs"
        by (cases qr; simp add: accum_def)+
      have "nested (get_own qs k)"
      proof (cases "map_of qs k")
        case s: (Some w)
        then have "atom w" using list_all_map_of [OF q, of k w] by simp
        then show ?thesis using s by (simp add: get_own_def atom_nested)
      qed (simp add: get_own_def)
      then show ?thesis using None Some JObj qr by simp
    qed (use None Some in simp_all)
  qed
qed

lemma shaped_read_top:
  assumes "shaped c"
  shows "top (read c k)"
proof (cases "map_of (fst c) k")
  case (Some v)
  have "top v" using assms list_all_map_of [of "\<lambda>p. top (snd p)" "fst c" k v] Some
    by (simp add: shaped_def)
  then show ?thesis using read_own [OF Some] by simp
next
  case None
  show ?thesis
  proof (cases "snd c")
    case n: None
    then show ?thesis using None by (simp add: read_def get_own_def)
  next
    case (Some p)
    with assms obtain ps pr where p: "p = JObj ps pr" and a: "accum (ps, pr)"
      by (cases p) (auto simp: shaped_def)
    have "read c k = inherited (JObj ps pr) k"
      using None Some p by (simp add: read_def)
    then show ?thesis using accum_inherited [OF a, of k] by (simp add: nested_top)
  qed
qed

lemma shaped_read_nested:
  assumes "shaped c" and "k = ''archetype'' \<or> k = ''consciousness_level''"
  shows "nested (read c k)"
proof (cases "map_of (fst c) k")
  case (Some v)
  then have "get c k = v" by (simp add: get_def get_own_def)
  then have "nested v" using assms by (auto simp: shaped_def)
  then show ?thesis using read_own [OF Some] by simp
next
  case None
  show ?thesis
  proof (cases "snd c")
    case n: None
    then show ?thesis using None by (simp add: read_def get_own_def)
  next
    case (Some p)
    with assms obtain ps pr where p: "p = JObj ps pr" and a: "accum (ps, pr)"
      by (cases p) (auto simp: shaped_def)
    have "read c k = inherited (JObj ps pr) k"
      using None Some p by (simp add: read_def)
    then show ?thesis using accum_inherited [OF a, of k] by simp
  qed
qed

lemma bind_err_modelled:
  assumes "r \<noteq> Inl OutsideModel" and "\<And>x. r = Inr x \<Longrightarrow> f x \<noteq> Inl OutsideModel"
  shows "bind_err r f \<noteq> Inl OutsideModel"
  using assms by (cases r) (auto simp: bind_err_def)

lemma registry_traits_modelled: "registry_traits k \<noteq> Inl OutsideModel"
  by (simp add: registry_traits_def split: option.splits)

lemma registry_traits_atom: "registry_traits k = Inr ts \<Longrightarrow> atom ts"
  by (auto simp: registry_traits_def split: option.splits if_splits)

lemma nested_object_text:
  assumes "nested v" and "is_object v"
  shows "object_text v \<noteq> Inl OutsideModel"
proof (cases v)
  case (JObj qs pr)
  with assms(1) have "pr = None" by (cases pr) auto
  then show ?thesis using JObj by simp
qed (use assms in \<open>simp_all add: is_object_def\<close>)

lemma nested_to_number: "nested v \<Longrightarrow> to_number v \<noteq> Inl OutsideModel"
  using nested_object_text [of v]
  by (cases v) (auto simp: to_number_def is_object_def bind_err_def split: sum.splits)

lemma nested_registry_read: "nested v \<Longrightarrow> registry_read v \<noteq> Inl OutsideModel"
  using nested_object_text [of v]
  by (cases v) (auto simp: registry_read_def is_object_def registry_traits_modelled bind_err_def
      split: sum.splits)

lemma registry_read_atom: "registry_read v = Inr ts \<Longrightarrow> atom ts"
  by (cases v) (auto simp: registry_read_def bind_err_def registry_traits_atom
      split: sum.splits)

lemma shaped_default_scalar:
  "shaped c \<Longrightarrow> \<not> is_object v \<Longrightarrow> shaped (default_if_falsy k v c)"
  by (simp add: default_if_falsy_def shaped_set_scalar)

lemma complete_scalars_shaped:
  assumes "shaped c"
  shows "complete_scalars c \<noteq> Inl OutsideModel"
    and "complete_scalars c = Inr c5 \<Longrightarrow> shaped c5"
proof -
  define c3 where "c3 = default_if_falsy ''element'' (JStr ''Fire'')
    (default_if_falsy ''archetype'' (JStr ''Creator'')
      (default_if_falsy ''name'' (JStr ''Unnamed Character'') c))"
  define c4 where "c4 = (if read c3 ''consciousness_level'' = JUndef
      then set_prop c3 ''consciousness_level'' (JNum (Fin (7 / 10))) else c3)"
  have s3: "shaped c3"
    unfolding c3_def using assms by (simp add: shaped_default_scalar is_object_def)
  have s4: "shaped c4"
    unfolding c4_def using s3 by (simp add: shaped_set_scalar is_object_def)
  have e: "complete_scalars c = (case to_number (read c4 ''consciousness_level'') of
           Inl e \<Rightarrow> Inl e
         | Inr n \<Rightarrow> Inr (set_prop c4 ''consciousness_level'' (JNum (js_max (Fin 0) (js_min (Fin 1) n)))))"
    unfolding complete_scalars_def Let_def c4_def c3_def by simp
  have n: "to_number (read c4 ''consciousness_level'') \<noteq> Inl OutsideModel"
    using shaped_read_nested [OF s4] by (simp add: nested_to_number)
  show "complete_scalars c \<noteq> Inl OutsideModel"
    unfolding e using n by (auto split: sum.splits)
  show "complete_scalars c = Inr c5 \<Longrightarrow> shaped c5"
    unfolding e using s4 by (auto split: sum.splits simp: shaped_set_scalar is_object_def)
qed

lemma complete_personality_shaped:
  assumes "shaped c"
  shows "complete_personality c \<noteq> Inl OutsideModel"
    and "complete_personality c = Inr c6 \<Longrightarrow> shaped c6"
proof -
  have n: "registry_read (read c ''archetype'') \<noteq> Inl OutsideModel"
    using shaped_read_nested [OF assms] by (simp add: nested_registry_read)
  show "complete_personality c \<noteq> Inl OutsideModel"
    unfolding complete_personality_def using n by (auto split: sum.splits)
  have t: "top (default_personality ts)" if "atom ts" for ts
    using that by (simp add: default_personality_def accum_def atom_nested)
  show "complete_personality c = Inr c6 \<Longrightarrow> shaped c6"
    unfolding complete_personality_def using assms
    by (auto split: sum.splits if_splits intro!: shaped_set_prop t dest: registry_read_atom)
qed

lemma shaped_default_section:
  assumes "shaped c" and "top v" and "k \<noteq> ''__proto__''" and "k \<noteq> ''archetype''"
    and "k \<noteq> ''consciousness_level''"
  shows "shaped (default_if_falsy k v c)"
  using assms by (simp add: default_if_falsy_def shaped_set_prop)

lemma complete_sections_shaped:
  assumes "shaped c"
  shows "shaped (complete_sections c)"
proof -
  have t: "top default_memory" "top default_conversation_patterns" "top default_mystical_abilities"
    by (simp_all add: default_memory_def default_conversation_patterns_def
        default_mystical_abilities_def accum_def)
  show ?thesis
    unfolding complete_sections_def using assms t by (simp add: shaped_default_section)
qed

lemma validateAndComplete_shaped:
  assumes "shaped c"
  shows "validateAndComplete c \<noteq> Inl OutsideModel"
    and "validateAndComplete c = Inr m \<Longrightarrow> shaped m"
proof -
  show "validateAndComplete c \<noteq> Inl OutsideModel"
    unfolding validateAndComplete_def
    using complete_scalars_shaped [OF assms] complete_personality_shaped(1)
    by (auto split: sum.splits)
  show "validateAndComplete c = Inr m \<Longrightarrow> shaped m"
    using complete_scalars_shaped(2) [OF assms] complete_personality_shaped(2)
      complete_sections_shaped
    by (auto elim!: validateAndComplete_Inr)
qed

lemma parseAPL_modelled: "parseAPL src \<noteq> Inl OutsideModel"
  unfolding parseAPL_def using shaped_raw_model by (rule validateAndComplete_shaped(1))

lemma parseAPL_shaped: "parseAPL src = Inr m \<Longrightarrow> shaped m"
  unfolding parseAPL_def using shaped_raw_model validateAndComplete_shaped(2) by blast


lemma bind_err_outside:
  "bind_err r f = Inl OutsideModel \<longleftrightarrow>
     r = Inl OutsideModel \<or> (\<exists>x. r = Inr x \<and> f x = Inl OutsideModel)"
  by (cases r) (auto simp: bind_err_def)

lemma render_all_modelled:
  "(\<And>x. x \<in> set xs \<Longrightarrow> f x \<noteq> Inl OutsideModel) \<Longrightarrow> render_all f xs \<noteq> Inl OutsideModel"
  by (induction xs) (auto simp: bind_err_outside)

lemma collect_all_modelled:
  "(\<And>x. x \<in> set xs \<Longrightarrow> f x \<noteq> Inl OutsideModel) \<Longrightarrow> collect_all f xs \<noteq> Inl OutsideModel"
  by (induction xs) (auto simp: bind_err_outside)

lemma nested_primitive_text: "nested v \<Longrightarrow> primitive_text numstr v \<noteq> Inl OutsideModel"
  using nested_object_text [of v] by (cases v) (auto simp: primitive_text_def is_object_def)

lemma accum_join_text:
  assumes "accum (ps, pr)"
  shows "join_text numstr (JObj ps pr) \<noteq> Inl OutsideModel"
  unfolding join_text_def
  by (intro bind_err_modelled collect_all_modelled)
     (simp_all add: accum_inherited [OF assms] nested_to_number element_text_def nested_primitive_text)

lemma top_to_string:
  assumes "top v"
  shows "to_string numstr v \<noteq> Inl OutsideModel"
proof (cases v)
  case (JObj ps pr)
  with assms have a: "accum (ps, pr)" by simp
  have e: "ends_in_object (JObj ps pr) \<or> ends_in_array (JObj ps pr)"
  proof (cases pr)
    case (Some p)
    show ?thesis
    proof (cases p)
      case o: (JObj qs qr)
      with a Some have "qr = None" by (cases qr) (simp_all add: accum_def)
      then show ?thesis using Some o by simp
    qed (use a Some in \<open>simp_all add: accum_def\<close>)
  qed simp
  show ?thesis
    using JObj e accum_join_text [OF a, of numstr] by (auto simp: to_string_def)
qed (simp_all add: to_string_def primitive_text_def)

lemma nested_to_string: "nested v \<Longrightarrow> to_string numstr v \<noteq> Inl OutsideModel"
  by (simp add: nested_top top_to_string)

lemma entries_modelled: "entries v \<noteq> Inl OutsideModel"
  by (cases v) (simp_all add: entries_def)

lemma set_js_order: "set (js_order ps) \<subseteq> set ps"
  by (auto simp: js_order_def)

lemma indexed_values: "kv \<in> set (indexed vs) \<Longrightarrow> snd kv \<in> set vs"
  by (auto simp: indexed_def)

lemma top_entries:
  assumes "top v" and "entries v = Inr es" and "kv \<in> set es"
  shows "nested (snd kv)"
proof (cases v)
  case (JObj ps pr)
  with assms(2) have "es = js_order ps" by (simp add: entries_def)
  with assms(3) have "kv \<in> set ps" using set_js_order by blast
  moreover have "list_all (\<lambda>p. nested (snd p)) ps" using assms(1) JObj by (simp add: accum_def)
  ultimately show ?thesis by (simp add: list_all_iff)
qed (use assms in \<open>auto simp: entries_def dest!: indexed_values\<close>)

lemma nested_entries:
  assumes "nested v" and "entries v = Inr es" and "kv \<in> set es"
  shows "atom (snd kv)"
proof (cases v)
  case (JObj ps pr)
  with assms(1) have n: "pr = None" "list_all (\<lambda>p. atom (snd p)) ps" by (cases pr; simp)+
  from JObj assms(2) have "es = js_order ps" by (simp add: entries_def)
  with assms(3) have "kv \<in> set ps" using set_js_order by blast
  then show ?thesis using n(2) by (simp add: list_all_iff)
qed (use assms in \<open>auto simp: entries_def dest!: indexed_values\<close>)

lemma quoted_line_modelled: "nested (snd kv) \<Longrightarrow> quoted_line numstr indent kv \<noteq> Inl OutsideModel"
  unfolding quoted_line_def by (intro bind_err_modelled) (simp_all add: nested_to_string)

lemma string_or_raw_modelled: "nested v \<Longrightarrow> string_or_raw numstr v \<noteq> Inl OutsideModel"
  using nested_to_string [of v numstr] by (cases v) (simp_all add: string_or_raw_def)

lemma personality_line_modelled: "nested (snd kv) \<Longrightarrow> personality_line numstr kv \<noteq> Inl OutsideModel"
  using string_or_raw_modelled [of "snd kv" numstr]
  by (cases "snd kv") (auto simp: personality_line_def bind_err_outside)

lemma ability_line_modelled: "nested (snd kv) \<Longrightarrow> ability_line numstr kv \<noteq> Inl OutsideModel"
  unfolding ability_line_def by (intro bind_err_modelled) (simp_all add: string_or_raw_modelled)

lemma voice_line_modelled:
  assumes "nested (snd kv)"
  shows "voice_line numstr kv \<noteq> Inl OutsideModel"
proof (cases "is_object (snd kv)")
  case True
  have "bind_err (entries (snd kv)) (\<lambda>es.
        bind_err (render_all (quoted_line numstr ''    '') es) (\<lambda>body.
        Inr (''  '' @ fst kv @ '': {'' @ [CHR 0x0A] @ body @ ''  }'' @ [CHR 0x0A]))) \<noteq> Inl OutsideModel"
  proof (intro bind_err_modelled render_all_modelled)
    show "entries (snd kv) \<noteq> Inl OutsideModel" by (rule entries_modelled)
  next
    fix es x
    assume "entries (snd kv) = Inr es" and "x \<in> set es"
    then have "atom (snd x)" using nested_entries [OF assms] by blast
    then show "quoted_line numstr ''    '' x \<noteq> Inl OutsideModel"
      by (simp add: quoted_line_modelled atom_nested)
  qed simp
  then show ?thesis using True by (simp add: voice_line_def)
next
  case False
  then show ?thesis using assms by (simp add: voice_line_def quoted_line_modelled)
qed

lemma section_text_modelled:
  assumes "top v" and "\<And>kv. nested (snd kv) \<Longrightarrow> line kv \<noteq> Inl OutsideModel"
  shows "section_text line v \<noteq> Inl OutsideModel"
  unfolding section_text_def
proof (intro bind_err_modelled render_all_modelled)
  show "entries v \<noteq> Inl OutsideModel" by (rule entries_modelled)
next
  fix es x
  assume "entries v = Inr es" and "x \<in> set es"
  then have "nested (snd x)" using top_entries [OF assms(1)] by blast
  then show "line x \<noteq> Inl OutsideModel" by (rule assms(2))
qed

lemma shaped_characterToAPL:
  assumes "shaped c"
  shows "characterToAPL numstr c \<noteq> Inl OutsideModel"
proof -
  note t = shaped_read_top [OF assms]
  have v: "(if truthy (read c ''voice_profile'')
                then bind_err (section_text (voice_line numstr) (read c ''voice_profile''))
                       (\<lambda>body. Inr ([CHR 0x0A, CHR 0x0A] @ ''@voice_profile {'' @ [CHR 0x0A] @ body @ ''}''))
                else Inr []) \<noteq> Inl OutsideModel"
    using section_text_modelled [OF t, of "voice_line numstr" "''voice_profile''"]
    by (auto simp: bind_err_outside voice_line_modelled)
  show ?thesis
    unfolding characterToAPL_def
    by (intro bind_err_modelled top_to_string t section_text_modelled v
        personality_line_modelled quoted_line_modelled ability_line_modelled) simp_all
qed

lemma characterToAPL_modelled:
  "parseAPL src = Inr m \<Longrightarrow> characterToAPL numstr m \<noteq> Inl OutsideModel"
  by (simp add: parseAPL_shaped shaped_characterToAPL)


section \<open>Lemmas: splitting and the line of the cursor\<close>

lemma split_on_nonempty: "split_on c s \<noteq> []"
  by (induction s) (auto split: list.splits)

lemma split_on_no_sep: "c \<notin> set s \<Longrightarrow> split_on c s = [s]"
  by (induction s) auto

lemma split_on_append:
  "split_on c (pre @ c # l) = split_on c pre @ split_on c l"
  by (induction pre) (auto simp: split_on_nonempty split: list.splits)

lemma last_split_on_append:
  "last (split_on c (pre @ c # l)) = last (split_on c l)"
  by (simp add: split_on_append split_on_nonempty)

lemma slice0_int: "slice0 s (int n) = take n s"
  by (simp add: slice0_def)

lemma currentLine_of_context:
  assumes "CHR 0x0A \<notin> set l"
  shows "currentLine (pre @ CHR 0x0A # l @ post) (int (length pre + 1 + length l)) = l"
proof -
  have "take (length pre + 1 + length l) (pre @ CHR 0x0A # l @ post) = pre @ CHR 0x0A # l"
    by simp
  then have "slice0 (pre @ CHR 0x0A # l @ post) (int (length pre + 1 + length l)) = pre @ CHR 0x0A # l"
    by (simp only: slice0_int)
  then have "currentLine (pre @ CHR 0x0A # l @ post) (int (length pre + 1 + length l))
      = last (split_on CHR 0x0A l)"
    by (simp only: currentLine_def last_split_on_append)
  also have "\<dots> = l"
    using assms by (simp add: split_on_no_sep)
  finally show ?thesis .
qed

lemma currentLine_first:
  assumes "CHR 0x0A \<notin> set l"
  shows "currentLine (l @ post) (int (length l)) = l"
  using assms by (simp add: currentLine_def slice0_def split_on_no_sep)

lemma suggest_cases:
  "(starts_with l ''@'' \<longrightarrow>
        suggest l = map (\<lambda>d. ''@'' @ d) (filter (\<lambda>d. starts_with d (tl l)) directives))
   \<and> (\<not> starts_with l ''@'' \<and> str_includes l ''@archetype'' \<longrightarrow> suggest l = archetype_names)
   \<and> (\<not> starts_with l ''@'' \<and> \<not> str_includes l ''@archetype'' \<and> str_includes l ''@element'' \<longrightarrow>
        suggest l = element_names)"
  by (simp add: suggest_def)

section \<open>Completion suggestions (C8)\<close>

text \<open>
  What \<^verbatim>\<open>getSuggestions\<close> returns, by the text \<open>l\<close> between the last line break before the
  cursor and the cursor: the three branches of the code, in the order of its \<^verbatim>\<open>if\<close> /
  \<^verbatim>\<open>else if\<close> chain.
\<close>

lemma getSuggestions_current_line:
  "(CHR 0x0A \<notin> set l \<and>
    (src = pre @ CHR 0x0A # l @ post \<and> pos = int (length pre + 1 + length l)
     \<or> src = l @ post \<and> pos = int (length l)) \<longrightarrow>
      (starts_with l ''@'' \<longrightarrow>
         getSuggestions src pos = map (\<lambda>d. ''@'' @ d) (filter (\<lambda>d. starts_with d (tl l)) directives))
    \<and> (\<not> starts_with l ''@'' \<and> str_includes l ''@archetype'' \<longrightarrow>
         getSuggestions src pos = archetype_names)
    \<and> (\<not> starts_with l ''@'' \<and> \<not> str_includes l ''@archetype'' \<and> str_includes l ''@element'' \<longrightarrow>
         getSuggestions src pos = element_names)
    \<and> (\<not> starts_with l ''@'' \<and> \<not> str_includes l ''@archetype'' \<and> \<not> str_includes l ''@element'' \<longrightarrow>
         getSuggestions src pos = []))
   \<and> getSuggestions ''@arch'' 5 = [''@archetype'']
   \<and> length archetype_names = 6 \<and> length element_names = 6"
proof -
  have a: "getSuggestions ''@arch'' 5 = [''@archetype'']" by code_simp
  have b: "length archetype_names = 6 \<and> length element_names = 6"
    by (simp add: archetype_names_def element_names_def)
  have c: "getSuggestions src pos = suggest l"
    if n: "CHR 0x0A \<notin> set l"
      and "src = pre @ CHR 0x0A # l @ post \<and> pos = int (length pre + 1 + length l)
           \<or> src = l @ post \<and> pos = int (length l)"
    using that(2) unfolding getSuggestions_def
    by (auto simp only: currentLine_of_context [OF n] currentLine_first [OF n])
  have d: "\<not> starts_with l ''@'' \<and> \<not> str_includes l ''@archetype'' \<and> \<not> str_includes l ''@element''
      \<longrightarrow> suggest l = []"
    by (simp add: suggest_def)
  show ?thesis
    using a b c d suggest_cases [of l] by metis
qed

text \<open>
  Claim C8 gives every line that contains \<^verbatim>\<open>@archetype\<close> the six archetype names and every line
  that contains \<^verbatim>\<open>@element\<close> the six element names. The code does not: it tests for a leading
  \<^verbatim>\<open>@\<close> first, and the other two tests hang on its \<^verbatim>\<open>else\<close>. The lines \<^verbatim>\<open>@archetype \<close> and
  \<^verbatim>\<open>@element \<close> contain the directive name and get no suggestion at all, because no directive
  name starts with the text typed after the \<^verbatim>\<open>@\<close>; the same lines after two blanks get the six
  names.
\<close>

theorem getSuggestions_directive_line_empty:
  "str_includes (currentLine ''@archetype '' 11) ''@archetype''
   \<and> getSuggestions ''@archetype '' 11 = []
   \<and> str_includes (currentLine ''@element '' 9) ''@element''
   \<and> getSuggestions ''@element '' 9 = []
   \<and> getSuggestions ''  @archetype '' 13 = archetype_names
   \<and> getSuggestions ''  @element '' 11 = element_names"
  by code_simp

section \<open>Lemmas: the loop of the validator\<close>

lemma validate_step_eq:
  "validate_step i l st =
     \<lparr>errors = errors st @ (if scanned l \<and> openBraces st + brace_delta l < 0 then [brace_message i] else []),
      hasCharacter = (hasCharacter st \<or> scanned l \<and> starts_with (trim l) ''@character''),
      hasArchetype = (hasArchetype st \<or> scanned l \<and> starts_with (trim l) ''@archetype''),
      openBraces = openBraces st + brace_delta l\<rparr>"
  by (auto simp: validate_step_def scanned_def brace_delta_def brace_message_def Let_def)

lemma validate_loop_eq:
  "validate_loop i ls st =
     \<lparr>errors = errors st @ line_errors i (openBraces st) ls,
      hasCharacter = (hasCharacter st \<or> (\<exists>l \<in> set ls. scanned l \<and> starts_with (trim l) ''@character'')),
      hasArchetype = (hasArchetype st \<or> (\<exists>l \<in> set ls. scanned l \<and> starts_with (trim l) ''@archetype'')),
      openBraces = openBraces st + sum_list (map brace_delta ls)\<rparr>"
proof (induction ls arbitrary: i st)
  case Nil
  then show ?case by simp
next
  case (Cons l ls)
  show ?case
    unfolding validate_loop.simps Cons.IH validate_step_eq
    by (auto simp: add.assoc)
qed

lemma depth_counts:
  "sum_list (map brace_delta ls) = int (opening_lines ls) - int (closing_lines ls)"
  by (induction ls) (auto simp: opening_lines_def closing_lines_def brace_delta_def)

lemma running_depth_Cons:
  "running_depth (l # ls) 0 = brace_delta l"
  "running_depth (l # ls) (Suc j) = brace_delta l + running_depth ls j"
  by (simp_all add: running_depth_def)

lemma line_errors_eq:
  "line_errors i d ls =
     concat (map (\<lambda>j. if scanned (ls ! j) \<and> d + running_depth ls j < 0 then [brace_message (i + j)] else [])
       [0..<length ls])"
proof (induction ls arbitrary: i d)
  case Nil
  then show ?case by simp
next
  case (Cons l ls)
  have u: "[0..<length (l # ls)] = 0 # map Suc [0..<length ls]"
    by (simp add: upt_conv_Cons map_Suc_upt del: upt_Suc)
  show ?case
    unfolding u line_errors.simps Cons.IH
    by (simp add: running_depth_Cons comp_def add.assoc cong: if_cong)
qed

lemma validateSyntax_errors:
  "verrors (validateSyntax src) =
     line_errors 0 0 (split_on CHR 0x0A src)
     @ (if \<exists>l \<in> set (split_on CHR 0x0A src). scanned l \<and> starts_with (trim l) ''@character''
        then [] else [''Missing @character directive''])
     @ (if \<exists>l \<in> set (split_on CHR 0x0A src). scanned l \<and> starts_with (trim l) ''@archetype''
        then [] else [''Missing @archetype directive''])
     @ (if closing_lines (split_on CHR 0x0A src) < opening_lines (split_on CHR 0x0A src)
        then [''Unclosed braces detected''] else [])"
  by (simp add: validateSyntax_def validate_loop_eq vinit_def Let_def depth_counts)

lemma validateSyntax_valid: "valid (validateSyntax src) = (verrors (validateSyntax src) = [])"
  by (simp add: validateSyntax_def Let_def)

lemma unclosed_not_line: "''Unclosed braces detected'' \<notin> set (line_errors i d ls)"
  by (induction ls arbitrary: i d) (auto simp: brace_message_def)

lemma line_errors_mem:
  assumes "j < length ls" and "scanned (ls ! j)" and "d + running_depth ls j < 0"
  shows "brace_message (i + j) \<in> set (line_errors i d ls)"
  unfolding line_errors_eq using assms by auto

section \<open>Brace balance (C6)\<close>

text \<open>
  Claim C6: over the scanned lines of any source text (trimmed, neither empty nor a comment),
  \<^verbatim>\<open>validateSyntax\<close> reports the unclosed-braces error exactly when more lines contain an opening
  brace than contain a closing brace, which is when the final depth counter is positive; it
  reports one unexpected-closing-brace error, with the line number, for every scanned line after
  which the running depth is negative. The error list is these line messages in line order,
  then the missing-directive messages, then the unclosed-braces message, and the flag says
  whether the list is empty. The function is total: it has no error outcome.
\<close>

theorem validateSyntax_brace_balance:
  "(''Unclosed braces detected'' \<in> set (verrors (validateSyntax src))
      \<longleftrightarrow> closing_lines (split_on CHR 0x0A src) < opening_lines (split_on CHR 0x0A src))
   \<and> openBraces (validate_loop 0 (split_on CHR 0x0A src) vinit)
        = int (opening_lines (split_on CHR 0x0A src)) - int (closing_lines (split_on CHR 0x0A src))
   \<and> (\<forall>i < length (split_on CHR 0x0A src).
        scanned (split_on CHR 0x0A src ! i) \<and> running_depth (split_on CHR 0x0A src) i < 0
        \<longrightarrow> brace_message i \<in> set (verrors (validateSyntax src)))
   \<and> verrors (validateSyntax src) =
        concat (map (\<lambda>i. if scanned (split_on CHR 0x0A src ! i) \<and> running_depth (split_on CHR 0x0A src) i < 0
                          then [brace_message i] else [])
                 [0..<length (split_on CHR 0x0A src)])
        @ (if \<exists>l \<in> set (split_on CHR 0x0A src). scanned l \<and> starts_with (trim l) ''@character''
           then [] else [''Missing @character directive''])
        @ (if \<exists>l \<in> set (split_on CHR 0x0A src). scanned l \<and> starts_with (trim l) ''@archetype''
           then [] else [''Missing @archetype directive''])
        @ (if closing_lines (split_on CHR 0x0A src) < opening_lines (split_on CHR 0x0A src)
           then [''Unclosed braces detected''] else [])
   \<and> (valid (validateSyntax src) \<longleftrightarrow> verrors (validateSyntax src) = [])"
proof -
  let ?ls = "split_on CHR 0x0A src"
  have a: "''Unclosed braces detected'' \<in> set (verrors (validateSyntax src))
      \<longleftrightarrow> closing_lines ?ls < opening_lines ?ls"
    by (simp add: validateSyntax_errors unclosed_not_line)
  have b: "openBraces (validate_loop 0 ?ls vinit) = int (opening_lines ?ls) - int (closing_lines ?ls)"
    by (simp add: validate_loop_eq vinit_def depth_counts)
  have c: "brace_message i \<in> set (verrors (validateSyntax src))"
    if "i < length ?ls" and "scanned (?ls ! i)" and "running_depth ?ls i < 0" for i
    using line_errors_mem [of i ?ls 0 0] that by (simp add: validateSyntax_errors)
  have d: "verrors (validateSyntax src) =
        concat (map (\<lambda>i. if scanned (?ls ! i) \<and> running_depth ?ls i < 0
                          then [brace_message i] else []) [0..<length ?ls])
        @ (if \<exists>l \<in> set ?ls. scanned l \<and> starts_with (trim l) ''@character''
           then [] else [''Missing @character directive''])
        @ (if \<exists>l \<in> set ?ls. scanned l \<and> starts_with (trim l) ''@archetype''
           then [] else [''Missing @archetype directive''])
        @ (if closing_lines ?ls < opening_lines ?ls then [''Unclosed braces detected''] else [])"
    unfolding validateSyntax_errors line_errors_eq by (simp cong: if_cong)
  show ?thesis using a b c d validateSyntax_valid by blast
qed

text \<open>
  Three lines: a closing brace alone, then two section openings. The depth is negative after the
  first line and positive at the end.
\<close>

theorem validateSyntax_brace_balance_witness:
  "brace_message 0 \<in> set (verrors (validateSyntax (''}'' @ CHR 0x0A # ''@a {'' @ CHR 0x0A # ''@b {'')))
   \<and> ''Unclosed braces detected'' \<in> set (verrors (validateSyntax (''}'' @ CHR 0x0A # ''@a {'' @ CHR 0x0A # ''@b {'')))
   \<and> brace_message 0 = ''Line 1: Unexpected closing brace''"
proof -
  let ?s = "''}'' @ CHR 0x0A # ''@a {'' @ CHR 0x0A # ''@b {''"
  have h1: "0 < length (split_on CHR 0x0A ?s)" by code_simp
  have h2: "scanned (split_on CHR 0x0A ?s ! 0)" by code_simp
  have h3: "running_depth (split_on CHR 0x0A ?s) 0 < 0" by code_simp
  have h4: "closing_lines (split_on CHR 0x0A ?s) < opening_lines (split_on CHR 0x0A ?s)" by code_simp
  have h5: "brace_message 0 = ''Line 1: Unexpected closing brace''" by code_simp
  show ?thesis
    using validateSyntax_brace_balance [of ?s] h1 h2 h3 h4 h5 by blast
qed

section \<open>Lemmas: lines that leave name, archetype and element unset\<close>

lemma hd_split_on_prefix: "\<exists>r. s = hd (split_on c s) @ r"
  by (induction s) (auto split: list.splits)

lemma starts_with_hd_split_on: "starts_with s (hd (split_on c s))"
proof -
  obtain r where "s = hd (split_on c s) @ r" using hd_split_on_prefix by blast
  then have "take (length (hd (split_on c s))) s = hd (split_on c s)"
    by (metis append_eq_conv_conj)
  then show ?thesis by (simp add: starts_with_def)
qed

lemma starts_with_directive:
  assumes "starts_with line ''@''"
  shows "starts_with line (''@'' @ hd (split_on CHR '' '' (tl line)))"
proof -
  from assms obtain t where l: "line = CHR ''@'' # t"
    by (cases line) (auto simp: starts_with_def)
  show ?thesis
    using starts_with_hd_split_on [of t "CHR '' ''"] by (simp add: l starts_with_def)
qed

lemma plain_directive:
  assumes "plain_line line" and "starts_with line ''@''"
  shows "hd (split_on CHR '' '' (tl line)) \<notin> {''character'', ''archetype'', ''element'', ''name'', ''__proto__''}"
  using starts_with_directive [OF assms(2)] assms(1)
  by (auto simp: plain_line_def)


lemma get_set_prop_other:
  "k \<noteq> ''__proto__'' \<Longrightarrow> k \<noteq> k' \<Longrightarrow> get (set_prop c k v) k' = get c k'"
  by (simp add: get_set_prop)

lemma reserved_free_set_prop:
  assumes "reserved_free st"
    and "k \<notin> {''name'', ''archetype'', ''element'', ''consciousness_level'', ''__proto__''}"
  shows "reserved_free (st\<lparr>character := set_prop (character st) k v\<rparr>)"
proof -
  from assms(2) have k: "k \<noteq> ''name''" "k \<noteq> ''archetype''" "k \<noteq> ''element''"
    "k \<noteq> ''consciousness_level''" "k \<noteq> ''__proto__''" by simp_all
  show ?thesis
    using assms(1) unfolding reserved_free_def
    by (simp add: get_set_prop_other [OF k(5)] k snd_set_prop)
qed

lemma reserved_free_set_level:
  assumes "reserved_free st"
  shows "reserved_free (st\<lparr>character := set_prop (character st) ''consciousness_level'' (JNum n)\<rparr>)"
  using assms unfolding reserved_free_def
  by (simp add: get_set_prop snd_set_prop)

lemma reserved_free_open:
  assumes "reserved_free st"
    and "d \<notin> {''name'', ''archetype'', ''element'', ''consciousness_level'', ''__proto__''}"
  shows "reserved_free (st\<lparr>currentSection := Some d, currentObject := obj\<rparr>)"
  using assms unfolding reserved_free_def by simp


lemma reserved_free_directive:
  assumes "reserved_free st" and "plain_line line" and "starts_with line ''@''"
  shows "reserved_free (directive_step line st)"
proof -
  let ?d = "hd (split_on CHR '' '' (tl line))"
  let ?v = "join '' '' (tl (split_on CHR '' '' (tl line)))"
  have d: "?d \<noteq> ''character''" "?d \<noteq> ''archetype''" "?d \<noteq> ''element''" "?d \<noteq> ''name''"
    "?d \<noteq> ''__proto__''"
    using plain_directive [OF assms(2,3)] by simp_all
  show ?thesis
  proof (cases "?d = ''consciousness_level''")
    case True
    have "directive_step line st =
        st\<lparr>character := set_prop (character st) ''consciousness_level'' (JNum (parseFloat (parseValue ?v)))\<rparr>"
      unfolding directive_step_def Let_def True by simp
    then show ?thesis by (simp only: reserved_free_set_level [OF assms(1)])
  next
    case False
    with d have r: "?d \<notin> {''name'', ''archetype'', ''element'', ''consciousness_level'', ''__proto__''}"
      by simp
    show ?thesis
    proof (cases "CHR ''{'' \<in> set ?v")
      case True
      have "directive_step line st = st\<lparr>currentSection := Some ?d, currentObject := empty_obj\<rparr>"
        unfolding directive_step_def Let_def using d False True by simp
      then show ?thesis by (simp only: reserved_free_open [OF assms(1) r])
    next
      case n: False
      have "directive_step line st = st\<lparr>character := set_prop (character st) ?d (JStr (parseValue ?v))\<rparr>"
        unfolding directive_step_def Let_def using d False n by simp
      then show ?thesis by (simp only: reserved_free_set_prop [OF assms(1) r])
    qed
  qed
qed


lemma reserved_free_close:
  assumes "reserved_free st" and "in_section st"
  shows "reserved_free (st\<lparr>character := set_prop (character st) (the (currentSection st)) v,
              currentSection := None, currentObject := obj\<rparr>)"
proof -
  from assms(2) obtain s where s: "currentSection st = Some s"
    by (auto simp: in_section_def split: option.splits)
  with assms(1) have "s \<notin> {''name'', ''archetype'', ''element'', ''consciousness_level'', ''__proto__''}"
    unfolding reserved_free_def by simp
  from reserved_free_set_prop [OF assms(1) this, of v]
  show ?thesis unfolding reserved_free_def by (simp add: s)
qed

lemma reserved_free_property:
  assumes "reserved_free st"
  shows "reserved_free (property_step line st)"
  using assms unfolding reserved_free_def property_step_def Let_def by simp

lemma reserved_free_step:
  assumes "reserved_free st" and "plain_line line"
  shows "reserved_free (parse_step st line)"
proof (cases "starts_with line ''@''")
  case True
  then show ?thesis
    unfolding parse_step_def using reserved_free_directive [OF assms True] by simp
next
  case False
  show ?thesis
  proof (cases "line = ''}''")
    case True
    then show ?thesis
      unfolding parse_step_def using False reserved_free_close [OF assms(1)] assms(1) by simp
  next
    case n: False
    then show ?thesis
      unfolding parse_step_def using False reserved_free_property [OF assms(1)] assms(1) by simp
  qed
qed

lemma reserved_free_foldl:
  assumes "\<forall>l \<in> set ls. plain_line l" and "reserved_free st"
  shows "reserved_free (foldl parse_step st ls)"
  using assms by (induction ls arbitrary: st) (simp_all add: reserved_free_step)

lemma reserved_free_init: "reserved_free pinit"
  unfolding reserved_free_def pinit_def empty_obj_def get_def get_own_def by simp

lemma lexical_lines_subset: "set (lexical_lines src) \<subseteq> set (map trim (split_on CHR 0x0A src))"
  unfolding lexical_lines_def by auto

lemma reserved_free_raw:
  assumes "\<forall>l \<in> set (map trim (split_on CHR 0x0A src)). plain_line l"
  shows "reserved_free (parse_lines (lexical_lines src))"
  unfolding parse_lines_def
  using assms lexical_lines_subset [of src] reserved_free_init
  by (intro reserved_free_foldl) auto


lemma registry_Creator: "\<exists>ts. registry_traits ''Creator'' = Inr ts"
  by (simp add: registry_traits_def ARCHETYPE_DEFINITIONS_def)

lemma validate_defaults:
  assumes f: "snd c = None" and n: "get c ''name'' = JUndef" and a: "get c ''archetype'' = JUndef"
    and e: "get c ''element'' = JUndef"
    and l: "get c ''consciousness_level'' = JUndef \<or> (\<exists>n. get c ''consciousness_level'' = JNum n)"
  shows "\<exists>m. validateAndComplete c = Inr m \<and> get m ''name'' = JStr ''Unnamed Character''
           \<and> get m ''archetype'' = JStr ''Creator'' \<and> get m ''element'' = JStr ''Fire''"
proof -
  let ?c3 = "default_if_falsy ''element'' (JStr ''Fire'')
           (default_if_falsy ''archetype'' (JStr ''Creator'')
             (default_if_falsy ''name'' (JStr ''Unnamed Character'') c))"
  let ?c4 = "if read ?c3 ''consciousness_level'' = JUndef
             then set_prop ?c3 ''consciousness_level'' (JNum (Fin (7 / 10))) else ?c3"
  have r: "read c k = get c k" for k using f by (rule read_no_proto)
  have u: "\<not> truthy JUndef" by (simp add: truthy_def)
  have g3: "read ?c3 ''consciousness_level'' = get c ''consciousness_level''"
    by (simp add: read_default_if_falsy r)
  have "\<exists>k. read ?c4 ''consciousness_level'' = JNum k"
    using l unfolding g3 by (auto simp: read_set_prop g3)
  then obtain k where k: "read ?c4 ''consciousness_level'' = JNum k" by blast
  have "complete_scalars c = Inr (set_prop ?c4 ''consciousness_level'' (JNum (js_max (Fin 0) (js_min (Fin 1) k))))"
    unfolding complete_scalars_def Let_def k to_number_def by simp
  then have "\<exists>c5. complete_scalars c = Inr c5" by blast
  then obtain c5 where c5: "complete_scalars c = Inr c5" by blast
  have n5: "get c5 ''name'' = JStr ''Unnamed Character''"
    using complete_scalars_get [OF c5, of "''name''"] n u by (simp add: get_default_if_falsy r)
  have a5: "get c5 ''archetype'' = JStr ''Creator''"
    using complete_scalars_get [OF c5, of "''archetype''"] a u
    by (simp add: get_default_if_falsy read_default_if_falsy r)
  have e5: "get c5 ''element'' = JStr ''Fire''"
    using complete_scalars_get [OF c5, of "''element''"] e u
    by (simp add: get_default_if_falsy read_default_if_falsy r)
  have "snd c5 = None" using complete_scalars_snd [OF c5] f by simp
  then have ra5: "read c5 ''archetype'' = JStr ''Creator''"
    using a5 by (simp add: read_no_proto)
  obtain ts where ts: "registry_traits ''Creator'' = Inr ts" using registry_Creator by blast
  have "\<exists>c6. complete_personality c5 = Inr c6"
    unfolding complete_personality_def by (simp add: ra5 registry_read_def ts)
  then obtain c6 where c6: "complete_personality c5 = Inr c6" by blast
  have v: "validateAndComplete c = Inr (complete_sections c6)"
    unfolding validateAndComplete_def using c5 c6 by simp
  have "get (complete_sections c6) ''name'' = JStr ''Unnamed Character''"
    using complete_personality_get [OF c6, of "''name''"] n5 by (simp add: complete_sections_get)
  moreover have "get (complete_sections c6) ''archetype'' = JStr ''Creator''"
    using complete_personality_get [OF c6, of "''archetype''"] a5 by (simp add: complete_sections_get)
  moreover have "get (complete_sections c6) ''element'' = JStr ''Fire''"
    using complete_personality_get [OF c6, of "''element''"] e5 by (simp add: complete_sections_get)
  ultimately show ?thesis using v by blast
qed

lemma no_line_starts_plain:
  assumes "no_line_starts [''@character'', ''@archetype''] src"
    and "no_line_starts [''@element'', ''@name'', ''@__proto__''] src"
  shows "\<forall>l \<in> set (map trim (split_on CHR 0x0A src)). plain_line l"
  using assms unfolding no_line_starts_def plain_line_def list_all_iff by simp

lemma no_line_starts_missing:
  assumes "no_line_starts [''@character'', ''@archetype''] src"
  shows "''Missing @character directive'' \<in> set (verrors (validateSyntax src))
       \<and> ''Missing @archetype directive'' \<in> set (verrors (validateSyntax src))"
proof -
  from assms have e: "(\<exists>l \<in> set (split_on CHR 0x0A src). scanned l \<and> starts_with (trim l) ''@character'') = False"
    "(\<exists>l \<in> set (split_on CHR 0x0A src). scanned l \<and> starts_with (trim l) ''@archetype'') = False"
    unfolding no_line_starts_def list_all_iff by simp_all
  show ?thesis unfolding validateSyntax_errors e by simp
qed

section \<open>Documents without @character and @archetype (C7)\<close>

text \<open>
  Claim C7, as amended: for every source document in which no line begins with \<^verbatim>\<open>@character\<close>
  or \<^verbatim>\<open>@archetype\<close>, \<^verbatim>\<open>validateSyntax\<close> returns \<open>valid = false\<close> and reports both
  missing-directive messages. If, in addition, no line begins with \<^verbatim>\<open>@element\<close>, \<^verbatim>\<open>@name\<close> or
  \<^verbatim>\<open>@__proto__\<close>, then \<^verbatim>\<open>parseAPL\<close> returns a model with the name \<open>Unnamed Character\<close>, the
  archetype \<open>Creator\<close> and the element \<open>Fire\<close>.
\<close>

theorem missing_directives_defaults:
  "no_line_starts [''@character'', ''@archetype''] src \<longrightarrow>
     \<not> valid (validateSyntax src)
     \<and> ''Missing @character directive'' \<in> set (verrors (validateSyntax src))
     \<and> ''Missing @archetype directive'' \<in> set (verrors (validateSyntax src))
     \<and> (no_line_starts [''@element'', ''@name'', ''@__proto__''] src \<longrightarrow>
          (\<exists>m. parseAPL src = Inr m \<and> get m ''name'' = JStr ''Unnamed Character''
               \<and> get m ''archetype'' = JStr ''Creator'' \<and> get m ''element'' = JStr ''Fire''))"
proof
  assume h: "no_line_starts [''@character'', ''@archetype''] src"
  have m: "''Missing @character directive'' \<in> set (verrors (validateSyntax src))
       \<and> ''Missing @archetype directive'' \<in> set (verrors (validateSyntax src))"
    using no_line_starts_missing [OF h] .
  then have nv: "\<not> valid (validateSyntax src)"
    unfolding validateSyntax_valid by auto
  have p: "\<exists>m. parseAPL src = Inr m \<and> get m ''name'' = JStr ''Unnamed Character''
               \<and> get m ''archetype'' = JStr ''Creator'' \<and> get m ''element'' = JStr ''Fire''"
    if h2: "no_line_starts [''@element'', ''@name'', ''@__proto__''] src"
  proof -
    have "reserved_free (parse_lines (lexical_lines src))"
      using reserved_free_raw [OF no_line_starts_plain [OF h h2]] .
    then show ?thesis
      unfolding parseAPL_def raw_model_def reserved_free_def
      by (intro validate_defaults) simp_all
  qed
  show "\<not> valid (validateSyntax src)
     \<and> ''Missing @character directive'' \<in> set (verrors (validateSyntax src))
     \<and> ''Missing @archetype directive'' \<in> set (verrors (validateSyntax src))
     \<and> (no_line_starts [''@element'', ''@name'', ''@__proto__''] src \<longrightarrow>
          (\<exists>m. parseAPL src = Inr m \<and> get m ''name'' = JStr ''Unnamed Character''
               \<and> get m ''archetype'' = JStr ''Creator'' \<and> get m ''element'' = JStr ''Fire''))"
    using m nv p by blast
qed

text \<open>A comment and an unknown scalar directive: both checks fail, and the name is the default.\<close>

theorem missing_directives_defaults_witness:
  "no_line_starts [''@character'', ''@archetype''] (''# draft'' @ CHR 0x0A # ''@mood calm'')
   \<and> no_line_starts [''@element'', ''@name'', ''@__proto__''] (''# draft'' @ CHR 0x0A # ''@mood calm'')
   \<and> \<not> valid (validateSyntax (''# draft'' @ CHR 0x0A # ''@mood calm''))
   \<and> result_field (parseAPL (''# draft'' @ CHR 0x0A # ''@mood calm'')) ''name'' = Inr (JStr ''Unnamed Character'')"
proof -
  let ?s = "''# draft'' @ CHR 0x0A # ''@mood calm''"
  have h1: "no_line_starts [''@character'', ''@archetype''] ?s" by code_simp
  have h2: "no_line_starts [''@element'', ''@name'', ''@__proto__''] ?s" by code_simp
  from missing_directives_defaults [of ?s] h1 h2 have nv: "\<not> valid (validateSyntax ?s)"
    and "\<exists>m. parseAPL ?s = Inr m \<and> get m ''name'' = JStr ''Unnamed Character''" by blast+
  then have "result_field (parseAPL ?s) ''name'' = Inr (JStr ''Unnamed Character'')"
    by (auto simp: result_field_def)
  with h1 h2 nv show ?thesis by blast
qed

text \<open>
  Against claim C7 as stated: neither document has a line that begins with \<^verbatim>\<open>@character\<close> or
  \<^verbatim>\<open>@archetype\<close>, and the parsed element is \<open>Water\<close>, not \<open>Fire\<close>, and the parsed name is \<open>Bob\<close>,
  not the placeholder.
\<close>

theorem other_directives_set_identity:
  "no_line_starts [''@character'', ''@archetype''] ''@element Water''
   \<and> result_field (parseAPL ''@element Water'') ''element'' = Inr (JStr ''Water'')
   \<and> no_line_starts [''@character'', ''@archetype''] ''@name Bob''
   \<and> result_field (parseAPL ''@name Bob'') ''name'' = Inr (JStr ''Bob'')"
  by code_simp

section \<open>Lemmas: documents without a section named __proto__\<close>





section \<open>Defaults for archetype and element (C2)\<close>




text \<open>
  A section named \<^verbatim>\<open>__proto__\<close> is outside the amended claim. Its commit
  \<^verbatim>\<open>character[currentSection] = currentObject\<close> replaces the prototype of the model, so that
  \<^verbatim>\<open>!character.archetype\<close> sees the archetype of the section: no archetype is parsed, none is
  assigned, and the model reads \<open>Nurturer\<close> and gets the traits of \<open>Nurturer\<close>.
\<close>

lemma proto_archetype_inherited:
  "get (raw_model proto_archetype) ''archetype'' = JUndef
   \<and> result_field (parseAPL proto_archetype) ''archetype'' = Inr JUndef
   \<and> (case parseAPL proto_archetype of Inl e \<Rightarrow> Inl e | Inr m \<Rightarrow> Inr (read m ''archetype''))
       = Inr (JStr ''Nurturer'')
   \<and> (case parseAPL proto_archetype of Inl e \<Rightarrow> Inl e
        | Inr m \<Rightarrow> Inr (own_prop (get m ''personality'') ''traits''))
       = Inr (JArr [''caring'', ''patient'', ''wise'', ''protective''])"
  by code_simp

section \<open>The consciousness level (C4)\<close>

text \<open>
  The level of the directive is clamped: \<open>-5\<close>, \<open>5\<close> and \<open>1.5\<close> give 0, 1 and 1, and the empty
  document gets 0.7 (in general, lemmas \<open>own_level_clamped\<close> and \<open>absent_level_default\<close>).
\<close>

lemma consciousness_level_scenarios:
  "result_field (parseAPL ''@consciousness_level -5'') ''consciousness_level'' = Inr (JNum (Fin 0))
   \<and> result_field (parseAPL ''@consciousness_level 5'') ''consciousness_level'' = Inr (JNum (Fin 1))
   \<and> result_field (parseAPL ''@consciousness_level 1.5'') ''consciousness_level'' = Inr (JNum (Fin 1))
   \<and> result_field (parseAPL []) ''consciousness_level'' = Inr (JNum (Fin (7 / 10)))"
  by code_simp

text \<open>
  Claim C4 says that the validated level is 0.7 when the directive is absent. The code departs
  from it on a section named \<^verbatim>\<open>__proto__\<close>: the commit of the section replaces the prototype of
  the model, \<^verbatim>\<open>character.consciousness_level === undefined\<close> then sees the level of the section,
  and the clamp stores it. The document below has no line that begins with
  \<^verbatim>\<open>@consciousness_level\<close>, the partial model has no level of its own, and the validated level
  is 0.3.
\<close>

theorem inherited_level_kept:
  "no_line_starts [''@consciousness_level''] proto_level
   \<and> get (raw_model proto_level) ''consciousness_level'' = JUndef
   \<and> result_field (parseAPL proto_level) ''consciousness_level'' = Inr (JNum (Fin (3 / 10)))"
  by code_simp

section \<open>Lemmas: serializing the Echo model\<close>

lemma js_order_names:
  "js_order [(''traits'', a)] = [(''traits'', a)]"
  "js_order [(''core_experiences'', a), (''relationship_templates'', b), (''growth_pattern'', c)]
     = [(''core_experiences'', a), (''relationship_templates'', b), (''growth_pattern'', c)]"
  "js_order [(''greeting'', a), (''question_response'', b), (''farewell'', c)]
     = [(''greeting'', a), (''question_response'', b), (''farewell'', c)]"
  "js_order [(''consciousness_awareness'', a), (''empathic_resonance'', b), (''wisdom_sharing'', c)]
     = [(''consciousness_awareness'', a), (''empathic_resonance'', b), (''wisdom_sharing'', c)]"
  by (simp_all add: js_order_def is_index_key_def digit_in_def digit_table_def)

lemma echo_serialized:
  assumes "numstr (Fin (4 / 5)) = ''0.8''"
  shows "characterToAPL numstr echo_model = characterToAPL (\<lambda>_. ''0.8'') echo_model"
  using assms
  by (simp add: characterToAPL_def echo_model_def read_def get_own_def to_string_def primitive_text_def bind_err_def
      section_text_def entries_def js_order_names default_memory_def default_conversation_patterns_def
      default_mystical_abilities_def truthy_def personality_line_def quoted_line_def ability_line_def
      string_or_raw_def)

section \<open>Serialize and parse again (C1)\<close>

text \<open>
  Claim C1 is the round-trip law: parsing the serialized text of a validated model gives the model
  back. The Echo model is a validated model (it is what \<^verbatim>\<open>parseAPL\<close> returns for the scenario
  document) without nested objects. \<^verbatim>\<open>characterToAPL\<close> writes its traits as
  \<^verbatim>\<open>["curious", "kind"]\<close>; \<^verbatim>\<open>parseArray\<close> splits at the comma, and \<^verbatim>\<open>parseValue\<close> removes quotes
  at the two ends before it trims, so the item \<^verbatim>\<open> "kind"\<close> loses its closing quote only. For
  every rendering of numbers that prints 0.8 as \<^verbatim>\<open>0.8\<close>, the model parsed back has the traits
  \<^verbatim>\<open>curious\<close> and \<^verbatim>\<open>"kind\<close>.
\<close>

theorem roundtrip_breaks_arrays:
  assumes "numstr (Fin (4 / 5)) = ''0.8''"
  shows "parseAPL echo_source = Inr echo_model
    \<and> bind_err (characterToAPL numstr echo_model) parseAPL = Inr echo_reparsed
    \<and> get echo_model ''personality'' = JObj [(''traits'', JArr [''curious'', ''kind''])] None
    \<and> get echo_reparsed ''personality'' = JObj [(''traits'', JArr [''curious'', CHR 0x22 # ''kind''])] None"
proof -
  have a: "parseAPL echo_source = Inr echo_model" by code_simp
  have b: "bind_err (characterToAPL (\<lambda>_. ''0.8'') echo_model) parseAPL = Inr echo_reparsed"
    by code_simp
  have c: "get echo_model ''personality'' = JObj [(''traits'', JArr [''curious'', ''kind''])] None"
    by code_simp
  have d: "get echo_reparsed ''personality'' = JObj [(''traits'', JArr [''curious'', CHR 0x22 # ''kind''])] None"
    by code_simp
  show ?thesis
    using a b c d unfolding echo_serialized [of numstr, OF assms] by blast
qed

text \<open>A rendering of numbers that prints 0.8 as \<^verbatim>\<open>0.8\<close>: the round trip changes the model.\<close>

theorem roundtrip_breaks_arrays_witness:
  "bind_err (characterToAPL (\<lambda>n. if n = Fin (4 / 5) then ''0.8'' else ''NaN'') echo_model) parseAPL = Inr echo_reparsed
   \<and> echo_reparsed \<noteq> echo_model"
proof -
  have "echo_reparsed \<noteq> echo_model"
    by (simp add: echo_reparsed_def echo_model_def)
  then show ?thesis
    using roundtrip_breaks_arrays [of "\<lambda>n. if n = Fin (4 / 5) then ''0.8'' else ''NaN''"] by simp
qed

section \<open>Lemmas: lines that leave the model unchanged\<close>






section \<open>Unclosed sections (C9)\<close>




section \<open>Lemmas: objects and states that agree\<close>






lemma obj_agree_mono: "obj_agree {} a b \<Longrightarrow> obj_agree K a b"
  unfolding obj_agree_def by simp

lemma obj_agree_refl: "obj_agree K a a"
  unfolding obj_agree_def by simp





















section \<open>The last occurrence wins (C10)\<close>




end
